theory Spec2Isabelle
  imports Main "HOL-Library.Sublist"
begin

section \<open>JavaScript strings and arrays\<close>

text \<open>
  A JavaScript string is modelled as the list of its code units; the type \<open>string\<close>
  covers the code units below 256. \<open>String.prototype.startsWith\<close>, \<open>split\<close> on a
  one-character separator, \<open>Array.prototype.join\<close> and \<open>slice\<close> are written out.
\<close>

definition startsWith :: "string \<Rightarrow> string \<Rightarrow> bool" where
  "startsWith s p = (take (length p) s = p)"

text \<open>\<open>s.split(c)\<close>: the empty string splits into one empty piece.\<close>

fun split_on :: "char \<Rightarrow> string \<Rightarrow> string list" where
  "split_on c [] = [[]]"
| "split_on c (x # xs) =
     (if x = c then [] # split_on c xs
      else (case split_on c xs of
              [] \<Rightarrow> [[x]]
            | y # ys \<Rightarrow> (x # y) # ys))"

text \<open>\<open>xs.join(sep)\<close>.\<close>

fun join_with :: "string \<Rightarrow> string list \<Rightarrow> string" where
  "join_with sep [] = []"
| "join_with sep [x] = x"
| "join_with sep (x # y # ys) = x @ sep @ join_with sep (y # ys)"

text \<open>
  \<open>xs.slice(start, end)\<close> with JavaScript's treatment of the indices: a negative index
  counts from the end, and both are clamped to the array.
\<close>

definition js_index :: "nat \<Rightarrow> int \<Rightarrow> nat" where
  "js_index len i = (if i < 0 then nat (max 0 (int len + i)) else min (nat i) len)"

definition js_slice :: "'a list \<Rightarrow> int \<Rightarrow> int \<Rightarrow> 'a list" where
  "js_slice xs start end =
     (let k = js_index (length xs) start; final = js_index (length xs) end
      in take (final - k) (drop k xs))"

text \<open>
  \<open>s.trim()\<close> removes white space and line terminators from both ends. Of the code
  units below 256 these are tab, line feed, vertical tab, form feed, carriage return,
  space and the no-break space.
\<close>

definition is_ws :: "char \<Rightarrow> bool" where
  "is_ws c = (c \<in> set [CHR 0x09, CHR 0x0A, CHR 0x0B, CHR 0x0C, CHR 0x0D, CHR 0x20, CHR 0xA0])"

definition trim :: "string \<Rightarrow> string" where
  "trim s = rev (dropWhile is_ws (rev (dropWhile is_ws s)))"

section \<open>Data model (types.ts)\<close>

record TocEntry =
  level :: nat
  heading_text :: string
  slug :: string
  line :: int

record CodeBlock =
  lang :: "string option"
  cb_line :: int
  content :: string

record Link =
  link_text :: string
  href :: string
  isInternal :: bool

record SkillFiles =
  scripts :: "string list"
  references :: "string list"
  assets :: "string list"

text \<open>
  The frontmatter with its named fields; the open \<open>metadata\<close> bag is read by none of
  the functions below and is left out.
\<close>

record SkillFrontmatter =
  fm_name :: string
  fm_description :: string
  fm_license :: "string option"
  fm_version :: "string option"
  fm_author :: "string option"

record ParsedSkill =
  frontmatter :: SkillFrontmatter
  body :: string
  toc :: "TocEntry list"
  codeBlocks :: "CodeBlock list"
  links :: "Link list"
  files :: SkillFiles

record DiscoveredSkill =
  skill_name :: string
  description :: string
  skill_path :: string
  skillMdPath :: string
  parsed :: "ParsedSkill option"

record CodePreview =
  pv_lang :: "string option"
  pv_line :: int
  preview :: string

record SkillManifest =
  m_name :: string
  m_description :: string
  m_license :: "string option"
  m_version :: "string option"
  m_author :: "string option"
  m_toc :: "TocEntry list"
  m_codeBlocks :: "CodePreview list"
  m_links :: "Link list"
  m_files :: SkillFiles

section \<open>Manifest creation (parser.ts)\<close>

definition createManifest :: "ParsedSkill \<Rightarrow> SkillManifest" where
  "createManifest p =
     \<lparr> m_name = fm_name (frontmatter p),
       m_description = fm_description (frontmatter p),
       m_license = fm_license (frontmatter p),
       m_version = fm_version (frontmatter p),
       m_author = fm_author (frontmatter p),
       m_toc = toc p,
       m_codeBlocks =
         map (\<lambda>block. \<lparr> pv_lang = lang block, pv_line = cb_line block,
                          preview = js_slice (content block) 0 100 \<rparr>)
             (codeBlocks p),
       m_links = links p,
       m_files = files p \<rparr>"

section \<open>Resource URIs (resources.ts)\<close>

datatype ResourceType = Content | Manifest | Section | Code | References | Scripts | Assets

record ParsedSkillUri =
  uri_name :: string
  uri_type :: ResourceType
  param :: "string option"

definition parseSkillUri :: "string \<Rightarrow> ParsedSkillUri option" where
  "parseSkillUri uri =
     (if \<not> startsWith uri ''loadout://'' then None
      else
        let path = drop (length ''loadout://'') uri;
            segments = filter (\<lambda>s. length s > 0) (split_on CHR ''/'' path)
        in
          if length segments = 0 then None
          else
            let name = segments ! 0 in
              if length segments = 1 then
                Some \<lparr> uri_name = name, uri_type = Content, param = None \<rparr>
              else
                let resourceType = segments ! 1 in
                  if resourceType = ''manifest'' \<and> length segments = 2 then
                    Some \<lparr> uri_name = name, uri_type = Manifest, param = None \<rparr>
                  else if resourceType = ''section'' \<and> length segments = 3 then
                    Some \<lparr> uri_name = name, uri_type = Section, param = Some (segments ! 2) \<rparr>
                  else if resourceType = ''code'' \<and> length segments = 3 then
                    Some \<lparr> uri_name = name, uri_type = Code, param = Some (segments ! 2) \<rparr>
                  else if resourceType = ''references'' \<and> length segments \<ge> 3 then
                    Some \<lparr> uri_name = name, uri_type = References,
                           param = Some (join_with ''/'' (drop 2 segments)) \<rparr>
                  else if resourceType = ''scripts'' \<and> length segments \<ge> 3 then
                    Some \<lparr> uri_name = name, uri_type = Scripts,
                           param = Some (join_with ''/'' (drop 2 segments)) \<rparr>
                  else if resourceType = ''assets'' \<and> length segments \<ge> 3 then
                    Some \<lparr> uri_name = name, uri_type = Assets,
                           param = Some (join_with ''/'' (drop 2 segments)) \<rparr>
                  else None)"

text \<open>
  The parsing rule in the words of the specification, on the list of non-empty segments:
  the first segment is the skill name; alone it is a content request; \<open>manifest\<close> takes
  no further segment, \<open>section\<close> and \<open>code\<close> exactly one, \<open>references\<close>, \<open>scripts\<close>
  and \<open>assets\<close> one or more, joined back with a slash; every other shape is invalid.
\<close>

fun spec_uri_shape :: "string list \<Rightarrow> ParsedSkillUri option" where
  "spec_uri_shape [] = None"
| "spec_uri_shape [n] = Some \<lparr> uri_name = n, uri_type = Content, param = None \<rparr>"
| "spec_uri_shape (n # t # rest) =
     (if t = ''manifest'' then
        (case rest of
           [] \<Rightarrow> Some \<lparr> uri_name = n, uri_type = Manifest, param = None \<rparr>
         | _ # _ \<Rightarrow> None)
      else if t = ''section'' then
        (case rest of
           [p] \<Rightarrow> Some \<lparr> uri_name = n, uri_type = Section, param = Some p \<rparr>
         | _ \<Rightarrow> None)
      else if t = ''code'' then
        (case rest of
           [p] \<Rightarrow> Some \<lparr> uri_name = n, uri_type = Code, param = Some p \<rparr>
         | _ \<Rightarrow> None)
      else if t = ''references'' then
        (case rest of
           [] \<Rightarrow> None
         | _ # _ \<Rightarrow> Some \<lparr> uri_name = n, uri_type = References,
                            param = Some (join_with ''/'' rest) \<rparr>)
      else if t = ''scripts'' then
        (case rest of
           [] \<Rightarrow> None
         | _ # _ \<Rightarrow> Some \<lparr> uri_name = n, uri_type = Scripts,
                            param = Some (join_with ''/'' rest) \<rparr>)
      else if t = ''assets'' then
        (case rest of
           [] \<Rightarrow> None
         | _ # _ \<Rightarrow> Some \<lparr> uri_name = n, uri_type = Assets,
                            param = Some (join_with ''/'' rest) \<rparr>)
      else None)"

definition uri_segments :: "string \<Rightarrow> string list" where
  "uri_segments uri = filter (\<lambda>s. s \<noteq> []) (split_on CHR ''/'' (drop (length ''loadout://'') uri))"

subsection \<open>Section extraction\<close>

text \<open>
  The loop of \<open>extractSectionContent\<close> over the outline: the first entry, in outline
  order, that lies on a later line at the same or a shallower level sets the end and
  leaves the loop; without one the end keeps its initial value.
\<close>

fun find_end :: "TocEntry \<Rightarrow> TocEntry list \<Rightarrow> int \<Rightarrow> int" where
  "find_end entry [] endLine = endLine"
| "find_end entry (otherEntry # rest) endLine =
     (if line otherEntry > line entry \<and> level otherEntry \<le> level entry
      then line otherEntry - 1
      else find_end entry rest endLine)"

definition extractSectionContent :: "string \<Rightarrow> string \<Rightarrow> TocEntry list \<Rightarrow> string option" where
  "extractSectionContent bdy slg tc =
     (case List.find (\<lambda>t. slug t = slg) tc of
        None \<Rightarrow> None
      | Some entry \<Rightarrow>
          let lines = split_on CHR 0x0A bdy;
              startLine = line entry - 1
          in
            if startLine < 0 \<or> startLine \<ge> int (length lines) then None
            else
              let endLine = find_end entry tc (int (length lines));
                  sectionLines = js_slice lines startLine endLine
              in Some (trim (join_with [CHR 0x0A] sectionLines)))"






subsection \<open>An example document\<close>


definition demo_toc :: "TocEntry list" where
  "demo_toc =
    [\<lparr>level = 1, heading_text = ''T'', slug = ''t'', line = 1\<rparr>,
     \<lparr>level = 2, heading_text = ''Installation'', slug = ''installation'', line = 3\<rparr>,
     \<lparr>level = 3, heading_text = ''Sub'', slug = ''sub'', line = 5\<rparr>,
     \<lparr>level = 2, heading_text = ''Usage'', slug = ''usage'', line = 7\<rparr>]"

definition demo_body :: string where
  "demo_body = ''# T\<newline>\<newline>## Installation\<newline>run it\<newline>### Sub\<newline>x\<newline>## Usage\<newline>use it''"



section \<open>Paths (node:path, POSIX)\<close>

text \<open>
  The functions of Node's \<open>path\<close> module that the sources call, in their POSIX form and
  on segments: a path is split at the slashes, empty segments and \<open>.\<close> are dropped, and
  \<open>..\<close> removes the segment before it; at the start of a relative path \<open>..\<close> is kept,
  at the root of an absolute one it is dropped.
\<close>

fun norm_segments :: "bool \<Rightarrow> string list \<Rightarrow> string list \<Rightarrow> string list" where
  "norm_segments allowAboveRoot [] res = res"
| "norm_segments allowAboveRoot (seg # rest) res =
     (if seg = [] \<or> seg = ''.'' then norm_segments allowAboveRoot rest res
      else if seg = ''..'' then
        (if res \<noteq> [] \<and> last res \<noteq> ''..'' then norm_segments allowAboveRoot rest (butlast res)
         else if allowAboveRoot then norm_segments allowAboveRoot rest (res @ [''..''])
         else norm_segments allowAboveRoot rest res)
      else norm_segments allowAboveRoot rest (res @ [seg]))"

definition normalizeString :: "string \<Rightarrow> bool \<Rightarrow> string" where
  "normalizeString p allowAboveRoot =
     join_with ''/'' (norm_segments allowAboveRoot (split_on CHR ''/'' p) [])"

definition path_normalize :: "string \<Rightarrow> string" where
  "path_normalize p =
     (if p = [] then ''.''
      else
        let isAbsolute = (hd p = CHR ''/'');
            trailingSeparator = (last p = CHR ''/'');
            q = normalizeString p (\<not> isAbsolute)
        in
          if q = [] then (if isAbsolute then ''/'' else if trailingSeparator then ''./'' else ''.'')
          else
            let q' = (if trailingSeparator then q @ ''/'' else q)
            in if isAbsolute then ''/'' @ q' else q')"

definition path_join :: "string list \<Rightarrow> string" where
  "path_join args =
     (let joined = join_with ''/'' (filter (\<lambda>a. a \<noteq> []) args)
      in if joined = [] then ''.'' else path_normalize joined)"

text \<open>\<open>basename\<close>: the last segment, trailing slashes apart.\<close>

definition path_basename :: "string \<Rightarrow> string" where
  "path_basename p =
     rev (takeWhile (\<lambda>c. c \<noteq> CHR ''/'') (dropWhile (\<lambda>c. c = CHR ''/'') (rev p)))"

text \<open>
  \<open>dirname\<close>: what precedes the last segment and its slashes; \<open>.\<close> for a relative path
  of one segment, the root for an absolute one.
\<close>

definition path_dirname :: "string \<Rightarrow> string" where
  "path_dirname p =
     (if p = [] then ''.''
      else
        let hasRoot = (hd p = CHR ''/'');
            body_rev = dropWhile (\<lambda>c. c = CHR ''/'') (rev (tl p));
            after_seg = dropWhile (\<lambda>c. c \<noteq> CHR ''/'') body_rev
        in
          if after_seg = [] then (if hasRoot then ''/'' else ''.'')
          else if hasRoot \<and> length after_seg = 1 then ''//''
          else hd p # rev (tl after_seg))"

text \<open>
  \<open>extname\<close>: from the last dot of the last segment to its end; empty when the segment
  has no dot, when its only dot is its first character, and for the segment \<open>..\<close>.
\<close>

definition path_extname :: "string \<Rightarrow> string" where
  "path_extname p =
     (let base = path_basename p;
          ext = CHR ''.'' # rev (takeWhile (\<lambda>c. c \<noteq> CHR ''.'') (rev base))
      in
        if CHR ''.'' \<notin> set base then []
        else if length ext = length base then []
        else if base = ''..'' then []
        else ext)"

text \<open>
  \<open>resolve\<close>: the arguments are taken from the right until one is absolute, the working
  directory last; the result is normalised and carries no trailing slash.
\<close>

fun resolve_acc :: "string list \<Rightarrow> string \<Rightarrow> string \<times> bool" where
  "resolve_acc [] resolvedPath = (resolvedPath, False)"
| "resolve_acc (p # ps) resolvedPath =
     (if p = [] then resolve_acc ps resolvedPath
      else if hd p = CHR ''/'' then (p @ ''/'' @ resolvedPath, True)
      else resolve_acc ps (p @ ''/'' @ resolvedPath))"

definition path_resolve :: "string \<Rightarrow> string list \<Rightarrow> string" where
  "path_resolve cwd args =
     (case resolve_acc (rev args @ [cwd]) [] of
        (resolvedPath, resolvedAbsolute) \<Rightarrow>
          let q = normalizeString resolvedPath (\<not> resolvedAbsolute)
          in if resolvedAbsolute then ''/'' @ q
             else if q \<noteq> [] then q else ''.'')"
section \<open>Discovery (discovery.ts)\<close>

text \<open>
  The registry is a JavaScript \<open>Map\<close>: its entries keep the order of their first
  insertion, \<open>set\<close> on a present key replaces the value in place, \<open>delete\<close> removes
  the entry.
\<close>

type_synonym registry = "(string \<times> DiscoveredSkill) list"

fun map_set :: "registry \<Rightarrow> string \<Rightarrow> DiscoveredSkill \<Rightarrow> registry" where
  "map_set [] k v = [(k, v)]"
| "map_set ((k', v') # m) k v = (if k' = k then (k, v) # m else (k', v') # map_set m k v)"

definition map_get :: "registry \<Rightarrow> string \<Rightarrow> DiscoveredSkill option" where
  "map_get m k = map_of m k"

definition map_delete :: "registry \<Rightarrow> string \<Rightarrow> registry" where
  "map_delete m k = filter (\<lambda>e. fst e \<noteq> k) m"

datatype discovery_event =
    SkillDiscovered DiscoveredSkill
  | SkillUpdated DiscoveredSkill "DiscoveredSkill option"
  | SkillRemoved string string
  | ErrorEvent string

text \<open>
  The chokidar watcher is a handle on the patterns it watches; the calls made to the
  library are logged, and so are the events the discovery emits.
\<close>

record FSWatcher =
  patterns :: "string list"

datatype watcher_call = ChokidarWatch "string list" | WatcherClose FSWatcher

record SkillDiscovery =
  skills :: registry
  watcher :: "FSWatcher option"
  searchPaths :: "string list"
  emitted :: "discovery_event list"
  watcher_calls :: "watcher_call list"

text \<open>
  What the file system and the parser answer. \<open>parseSkillFile\<close> reads and parses a
  manifest file and may throw (\<open>Inl\<close> with the message); \<open>readdir\<close> lists a directory
  with the kind of each entry and may throw; \<open>listSkillFiles\<close> never throws.
\<close>

record Environment =
  directoryExists :: "string \<Rightarrow> bool"
  readdir :: "string \<Rightarrow> string + (string \<times> bool) list"
  access :: "string \<Rightarrow> bool"
  parseSkillFile :: "string \<Rightarrow> string + ParsedSkill"
  listSkillFiles :: "string \<Rightarrow> SkillFiles"

definition emit :: "discovery_event \<Rightarrow> SkillDiscovery \<Rightarrow> SkillDiscovery" where
  "emit ev st = st \<lparr> emitted := emitted st @ [ev] \<rparr>"

definition discoverSkillFromPath ::
  "Environment \<Rightarrow> string \<Rightarrow> SkillDiscovery \<Rightarrow> DiscoveredSkill option \<times> SkillDiscovery" where
  "discoverSkillFromPath env mdPath st =
     (case parseSkillFile env mdPath of
        Inl err \<Rightarrow> (None, emit (ErrorEvent err) st)
      | Inr p \<Rightarrow>
          let skillDir = path_dirname mdPath;
              fls = listSkillFiles env skillDir;
              p' = p \<lparr> files := fls \<rparr>
          in (Some \<lparr> skill_name = fm_name (frontmatter p'),
                      description = fm_description (frontmatter p'),
                      skill_path = skillDir,
                      skillMdPath = mdPath,
                      parsed = Some p' \<rparr>, st))"

text \<open>One turn of the loop of \<open>scanPath\<close> over the entries of a search path.\<close>

definition scanEntry ::
  "Environment \<Rightarrow> string \<Rightarrow> string \<times> bool \<Rightarrow> SkillDiscovery \<Rightarrow> SkillDiscovery" where
  "scanEntry env searchPath entry st =
     (if snd entry then
        let mdPath = path_join [searchPath, fst entry, ''SKILL.md'']
        in
          if \<not> access env mdPath then st
          else
            (case discoverSkillFromPath env mdPath st of
               (None, st') \<Rightarrow> st'
             | (Some skill, st') \<Rightarrow>
                 if skill_name skill \<noteq> [] then
                   emit (SkillDiscovered skill)
                     (st' \<lparr> skills := map_set (skills st') (skill_name skill) skill \<rparr>)
                 else st')
      else st)"

definition scanPath :: "Environment \<Rightarrow> string \<Rightarrow> SkillDiscovery \<Rightarrow> SkillDiscovery" where
  "scanPath env searchPath st =
     (if \<not> directoryExists env searchPath then st
      else
        (case readdir env searchPath of
           Inl err \<Rightarrow> emit (ErrorEvent err) st
         | Inr entries \<Rightarrow> fold (scanEntry env searchPath) entries st))"

definition scan :: "Environment \<Rightarrow> SkillDiscovery \<Rightarrow> SkillDiscovery" where
  "scan env st = fold (scanPath env) (searchPaths st) st"
text \<open>\<open>watch\<close> and \<open>close\<close>.\<close>

definition watch :: "SkillDiscovery \<Rightarrow> SkillDiscovery" where
  "watch st =
     (case watcher st of
        Some w \<Rightarrow> st
      | None \<Rightarrow>
          let pats = map (\<lambda>p. path_join [p, ''*'', ''SKILL.md'']) (searchPaths st)
          in st \<lparr> watcher := Some \<lparr> patterns = pats \<rparr>,
                  watcher_calls := watcher_calls st @ [ChokidarWatch pats] \<rparr>)"

definition close :: "SkillDiscovery \<Rightarrow> SkillDiscovery" where
  "close st =
     (case watcher st of
        Some w \<Rightarrow> st \<lparr> watcher_calls := watcher_calls st @ [WatcherClose w], watcher := None \<rparr>
      | None \<Rightarrow> st)"

text \<open>The handlers that \<open>watch\<close> registers on the watcher.\<close>

definition on_add :: "Environment \<Rightarrow> string \<Rightarrow> SkillDiscovery \<Rightarrow> SkillDiscovery" where
  "on_add env filePath st =
     (case discoverSkillFromPath env filePath st of
        (None, st') \<Rightarrow> st'
      | (Some skill, st') \<Rightarrow>
          if skill_name skill \<noteq> [] then
            let previous = map_get (skills st') (skill_name skill);
                st'' = st' \<lparr> skills := map_set (skills st') (skill_name skill) skill \<rparr>
            in (case previous of
                  Some prev \<Rightarrow> emit (SkillUpdated skill (Some prev)) st''
                | None \<Rightarrow> emit (SkillDiscovered skill) st'')
          else st')"

definition on_change :: "Environment \<Rightarrow> string \<Rightarrow> SkillDiscovery \<Rightarrow> SkillDiscovery" where
  "on_change env filePath st =
     (case discoverSkillFromPath env filePath st of
        (None, st') \<Rightarrow> st'
      | (Some skill, st') \<Rightarrow>
          if skill_name skill \<noteq> [] then
            let previous = map_get (skills st') (skill_name skill);
                st'' = st' \<lparr> skills := map_set (skills st') (skill_name skill) skill \<rparr>
            in emit (SkillUpdated skill previous) st''
          else st')"

text \<open>
  The loop of the \<open>unlink\<close> handler over the entries of the registry: the first entry
  whose manifest path is the deleted file is removed and announced, and the loop ends.
\<close>

fun unlink_loop :: "string \<Rightarrow> string \<Rightarrow> registry \<Rightarrow> SkillDiscovery \<Rightarrow> SkillDiscovery" where
  "unlink_loop filePath skillDir [] st = st"
| "unlink_loop filePath skillDir ((name, skill) # rest) st =
     (if skillMdPath skill = filePath then
        emit (SkillRemoved name skillDir) (st \<lparr> skills := map_delete (skills st) name \<rparr>)
      else unlink_loop filePath skillDir rest st)"

definition on_unlink :: "string \<Rightarrow> SkillDiscovery \<Rightarrow> SkillDiscovery" where
  "on_unlink filePath st = unlink_loop filePath (path_dirname filePath) (skills st) st"

datatype watch_event = Add string | Change string | Unlink string | WatchError string

text \<open>
  An event of the file system reaches the handlers only while a watcher is open.
\<close>

definition deliver :: "Environment \<Rightarrow> watch_event \<Rightarrow> SkillDiscovery \<Rightarrow> SkillDiscovery" where
  "deliver env ev st =
     (case watcher st of
        None \<Rightarrow> st
      | Some w \<Rightarrow>
          (case ev of
             Add filePath \<Rightarrow> on_add env filePath st
           | Change filePath \<Rightarrow> on_change env filePath st
           | Unlink filePath \<Rightarrow> on_unlink filePath st
           | WatchError err \<Rightarrow> emit (ErrorEvent err) st))"

definition getSkill :: "SkillDiscovery \<Rightarrow> string \<Rightarrow> DiscoveredSkill option" where
  "getSkill st name = map_get (skills st) name"

definition getAllSkills :: "SkillDiscovery \<Rightarrow> DiscoveredSkill list" where
  "getAllSkills st = map snd (skills st)"

text \<open>
  A discovery that holds no skill and no watcher, for a list of search paths.
\<close>

definition new_discovery :: "string list \<Rightarrow> SkillDiscovery" where
  "new_discovery paths =
     \<lparr> skills = [], watcher = None, searchPaths = paths, emitted = [], watcher_calls = [] \<rparr>"

text \<open>
  The constructor. The directory of the module, the working directory and the home
  directory (\<open>HOME\<close>, else \<open>USERPROFILE\<close>, else empty) are arguments; the default roots
  come first, the custom paths last.
\<close>

definition default_searchPaths :: "string \<Rightarrow> string \<Rightarrow> string \<Rightarrow> string list" where
  "default_searchPaths moduleDir workDir home =
     [path_join [moduleDir, ''..'', ''bundled-skills''],
      path_join [workDir, ''skills''],
      path_join [workDir, ''.claude'', ''skills''],
      path_join [workDir, ''.cursor'', ''skills''],
      path_join [workDir, ''.codex'', ''skills''],
      path_join [workDir, ''.agents'', ''skills'']]
     @ (if home \<noteq> [] then
          [path_join [home, ''.claude'', ''skills''],
           path_join [home, ''.cursor'', ''skills''],
           path_join [home, ''.codex'', ''skills''],
           path_join [home, ''.agents'', ''skills'']]
        else [])"

definition SkillDiscovery_constructor ::
  "string \<Rightarrow> string \<Rightarrow> string \<Rightarrow> string list option \<Rightarrow> SkillDiscovery" where
  "SkillDiscovery_constructor moduleDir workDir home customPaths =
     new_discovery
       (default_searchPaths moduleDir workDir home @
        (case customPaths of
           None \<Rightarrow> []
         | Some ps \<Rightarrow> if length ps > 0 then ps else []))"

text \<open>
  The states of a discovery: the constructor gives the first, and \<open>scan\<close>, \<open>watch\<close>,
  \<open>close\<close> and the events of the file system lead from state to state.
\<close>

inductive reachable :: "SkillDiscovery \<Rightarrow> bool" where
  init: "reachable (SkillDiscovery_constructor moduleDir workDir home customPaths)"
| scan: "reachable st \<Longrightarrow> reachable (scan env st)"
| watch: "reachable st \<Longrightarrow> reachable (watch st)"
| close: "reachable st \<Longrightarrow> reachable (close st)"
| deliver: "reachable st \<Longrightarrow> reachable (deliver env ev st)"

text \<open>
  The registry as the discovery builds it: the keys are distinct, every record is filed
  under its own name, and its directory is the directory of its manifest file.
\<close>

definition wf_registry :: "registry \<Rightarrow> bool" where
  "wf_registry m =
     (distinct (map fst m) \<and>
      list_all (\<lambda>e. fst e = skill_name (snd e) \<and>
                     skill_path (snd e) = path_dirname (skillMdPath (snd e))) m)"

text \<open>The events a scan may emit: discoveries and errors.\<close>

fun scan_event :: "discovery_event \<Rightarrow> bool" where
  "scan_event (SkillDiscovered skill) = True"
| "scan_event (ErrorEvent err) = True"
| "scan_event (SkillUpdated skill previous) = False"
| "scan_event (SkillRemoved name dir) = False"

text \<open>
  An example skill \<open>foo\<close> with two code blocks, and an environment in which the search
  roots \<open>/r\<close> and \<open>/s\<close> both hold a directory \<open>foo\<close> with a manifest of that name.
\<close>

definition demo_parsed :: ParsedSkill where
  "demo_parsed =
     \<lparr> frontmatter = \<lparr> fm_name = ''foo'', fm_description = ''demo'', fm_license = None,
                       fm_version = None, fm_author = None \<rparr>,
       body = demo_body,
       toc = demo_toc,
       codeBlocks = [\<lparr> lang = Some ''js'', cb_line = 4, content = ''const x = 1;'' \<rparr>,
                     \<lparr> lang = None, cb_line = 8, content = replicate 150 CHR ''x'' \<rparr>],
       links = [],
       files = \<lparr> scripts = [], references = [], assets = [] \<rparr> \<rparr>"

definition demo_files :: SkillFiles where
  "demo_files = \<lparr> scripts = [''run.sh''], references = [], assets = [] \<rparr>"

definition demo_env :: Environment where
  "demo_env =
     \<lparr> directoryExists = (\<lambda>p. p = ''/r'' \<or> p = ''/s''),
       readdir = (\<lambda>p. Inr [(''foo'', True), (''notes.txt'', False)]),
       access = (\<lambda>p. p = ''/r/foo/SKILL.md'' \<or> p = ''/s/foo/SKILL.md''),
       parseSkillFile = (\<lambda>p. Inr demo_parsed),
       listSkillFiles = (\<lambda>d. demo_files) \<rparr>"

text \<open>
  The process of the example: its module in \<open>/app/dist\<close>, its working directory
  \<open>/work\<close>, the home directory \<open>/home/u\<close>, and the custom roots given. Later the
  manifest of \<open>foo\<close> in \<open>/r\<close> is edited and names the skill \<open>bar\<close>.
\<close>

definition demo_discovery :: "string list \<Rightarrow> SkillDiscovery" where
  "demo_discovery roots =
     SkillDiscovery_constructor ''/app/dist'' ''/work'' ''/home/u'' (Some roots)"

definition demo_defaults :: "string list" where
  "demo_defaults =
     [''/app/bundled-skills'', ''/work/skills'', ''/work/.claude/skills'', ''/work/.cursor/skills'',
      ''/work/.codex/skills'', ''/work/.agents/skills'', ''/home/u/.claude/skills'',
      ''/home/u/.cursor/skills'', ''/home/u/.codex/skills'', ''/home/u/.agents/skills'']"

definition demo_patterns :: "string list" where
  "demo_patterns =
     [''/app/bundled-skills/*/SKILL.md'', ''/work/skills/*/SKILL.md'',
      ''/work/.claude/skills/*/SKILL.md'', ''/work/.cursor/skills/*/SKILL.md'',
      ''/work/.codex/skills/*/SKILL.md'', ''/work/.agents/skills/*/SKILL.md'',
      ''/home/u/.claude/skills/*/SKILL.md'', ''/home/u/.cursor/skills/*/SKILL.md'',
      ''/home/u/.codex/skills/*/SKILL.md'', ''/home/u/.agents/skills/*/SKILL.md'',
      ''/r/*/SKILL.md'']"

definition renamed_parsed :: ParsedSkill where
  "renamed_parsed =
     demo_parsed \<lparr> frontmatter := (frontmatter demo_parsed) \<lparr> fm_name := ''bar'' \<rparr> \<rparr>"

definition renamed_env :: Environment where
  "renamed_env = demo_env \<lparr> parseSkillFile := (\<lambda>p. Inr renamed_parsed) \<rparr>"

definition renamed_skill :: DiscoveredSkill where
  "renamed_skill =
     \<lparr> skill_name = ''bar'', description = ''demo'',
       skill_path = ''/r/foo'', skillMdPath = ''/r/foo/SKILL.md'',
       parsed = Some (renamed_parsed \<lparr> files := demo_files \<rparr>) \<rparr>"

definition demo_skill :: "string \<Rightarrow> DiscoveredSkill" where
  "demo_skill root =
     \<lparr> skill_name = ''foo'', description = ''demo'',
       skill_path = root @ ''/foo'', skillMdPath = root @ ''/foo/SKILL.md'',
       parsed = Some (demo_parsed \<lparr> files := demo_files \<rparr>) \<rparr>"

section \<open>Reading resources (resources.ts)\<close>

text \<open>
  \<open>parseInt(s, 10)\<close>: leading white space is skipped, a sign is read, then the longest
  run of decimal digits; without a digit the result is \<open>NaN\<close>, here \<open>None\<close>. The value
  is exact, where JavaScript rounds beyond \<open>2^53\<close>; the comparisons with the length of
  an array come out the same.
\<close>

definition is_digit :: "char \<Rightarrow> bool" where
  "is_digit c = (48 \<le> (of_char c :: nat) \<and> (of_char c :: nat) \<le> 57)"

definition digit_value :: "char \<Rightarrow> int" where
  "digit_value c = int (of_char c) - 48"

definition parseInt :: "string \<Rightarrow> int option" where
  "parseInt s =
     (let S = dropWhile is_ws s;
          sign = (if S \<noteq> [] \<and> hd S = CHR ''-'' then - 1 else 1);
          S' = (if S \<noteq> [] \<and> (hd S = CHR ''+'' \<or> hd S = CHR ''-'') then tl S else S);
          Z = takeWhile is_digit S'
      in if Z = [] then None
         else Some (sign * foldl (\<lambda>acc c. 10 * acc + digit_value c) 0 Z))"

text \<open>The decimal text of an integer, as a template literal renders it.\<close>

fun show_nat :: "nat \<Rightarrow> string" where
  "show_nat n =
     (if n < 10 then [''0123456789'' ! n]
      else show_nat (n div 10) @ [''0123456789'' ! (n mod 10)])"

definition show_int :: "int \<Rightarrow> string" where
  "show_int i = (if i < 0 then CHR ''-'' # show_nat (nat (- i)) else show_nat (nat i))"

text \<open>\<open>toLowerCase\<close> on the code units below 256.\<close>

definition js_toLowerCase :: "string \<Rightarrow> string" where
  "js_toLowerCase s =
     map (\<lambda>c. let n = (of_char c :: nat)
               in if (65 \<le> n \<and> n \<le> 90) \<or> (192 \<le> n \<and> n \<le> 222 \<and> n \<noteq> 215)
                  then char_of (n + 32) else c) s"

text \<open>
  The table of \<open>guessMimeType\<close>, looked up with the lower-cased text after the last dot
  of the file name. The table is an object literal, so a lookup also finds the members
  it inherits from \<open>Object.prototype\<close>; of their names only \<open>constructor\<close> and
  \<open>__proto__\<close> have no upper-case letter, and for these the value is not a string.
\<close>

datatype mime_value = MimeString string | ObjectConstructor | ObjectPrototype

definition mimeTypes :: "(string \<times> string) list" where
  "mimeTypes =
     [(''txt'', ''text/plain''), (''md'', ''text/markdown''), (''markdown'', ''text/markdown''),
      (''js'', ''text/javascript''), (''mjs'', ''text/javascript''),
      (''ts'', ''text/typescript''), (''mts'', ''text/typescript''),
      (''jsx'', ''text/jsx''), (''tsx'', ''text/tsx''), (''json'', ''application/json''),
      (''yaml'', ''text/yaml''), (''yml'', ''text/yaml''), (''xml'', ''application/xml''),
      (''html'', ''text/html''), (''css'', ''text/css''), (''py'', ''text/x-python''),
      (''rb'', ''text/x-ruby''), (''go'', ''text/x-go''), (''rs'', ''text/x-rust''),
      (''java'', ''text/x-java''), (''c'', ''text/x-c''), (''cpp'', ''text/x-c++''),
      (''h'', ''text/x-c''), (''hpp'', ''text/x-c++''), (''sh'', ''text/x-shellscript''),
      (''bash'', ''text/x-shellscript''), (''zsh'', ''text/x-shellscript''),
      (''sql'', ''text/x-sql''),
      (''png'', ''image/png''), (''jpg'', ''image/jpeg''), (''jpeg'', ''image/jpeg''),
      (''gif'', ''image/gif''), (''svg'', ''image/svg+xml''), (''webp'', ''image/webp''),
      (''ico'', ''image/x-icon''),
      (''pdf'', ''application/pdf''), (''csv'', ''text/csv''),
      (''wasm'', ''application/wasm'')]"

definition guessMimeType :: "string \<Rightarrow> mime_value" where
  "guessMimeType filename =
     (let ext = js_toLowerCase (last (split_on CHR ''.'' filename))
      in case map_of mimeTypes ext of
           Some t \<Rightarrow> MimeString t
         | None \<Rightarrow>
             if ext = ''constructor'' then ObjectConstructor
             else if ext = ''__proto__'' then ObjectPrototype
             else MimeString ''application/octet-stream'')"

definition type_name :: "ResourceType \<Rightarrow> string" where
  "type_name t =
     (case t of
        Content \<Rightarrow> ''content'' | Manifest \<Rightarrow> ''manifest'' | Section \<Rightarrow> ''section''
      | Code \<Rightarrow> ''code'' | References \<Rightarrow> ''references'' | Scripts \<Rightarrow> ''scripts''
      | Assets \<Rightarrow> ''assets'')"

record ResourceContents =
  rc_uri :: string
  mimeType :: mime_value
  rc_text :: string

text \<open>
  \<open>readResource\<close>. A thrown \<open>Error\<close> is \<open>Inl\<close> with its message. The help text, the
  JSON rendering of a manifest and the reading of files are given from outside:
  \<open>readFile\<close> answers the content of a file, or \<open>Inl\<close> with the message of the error
  it throws.
\<close>

definition readResource ::
  "(string \<Rightarrow> string + string) \<Rightarrow> string \<Rightarrow> (SkillManifest \<Rightarrow> string) \<Rightarrow> SkillDiscovery \<Rightarrow> string
     \<Rightarrow> string + ResourceContents list" where
  "readResource readFile helpContent stringify discovery uri =
     (if uri = ''loadout://help'' then
        Inr [\<lparr> rc_uri = uri, mimeType = MimeString ''text/markdown'', rc_text = helpContent \<rparr>]
      else
        case parseSkillUri uri of
          None \<Rightarrow> Inl (''Invalid skill URI: '' @ uri)
        | Some u \<Rightarrow>
           (case getSkill discovery (uri_name u) of
              None \<Rightarrow> Inl (''Skill not found: '' @ uri_name u)
            | Some skill \<Rightarrow>
               (case uri_type u of
                  Content \<Rightarrow>
                    (case readFile (skillMdPath skill) of
                       Inl err \<Rightarrow> Inl err
                     | Inr txt \<Rightarrow>
                         Inr [\<lparr> rc_uri = uri, mimeType = MimeString ''text/markdown'', rc_text = txt \<rparr>])
                | Manifest \<Rightarrow>
                    (case parsed skill of
                       None \<Rightarrow> Inl (''Skill not parsed: '' @ uri_name u)
                     | Some doc \<Rightarrow>
                         Inr [\<lparr> rc_uri = uri, mimeType = MimeString ''application/json'',
                                rc_text = stringify (createManifest doc) \<rparr>])
                | Section \<Rightarrow>
                    (case parsed skill of
                       None \<Rightarrow> Inl (''Skill not parsed: '' @ uri_name u)
                     | Some doc \<Rightarrow>
                         if param u = None \<or> param u = Some [] then Inl ''Section slug required''
                         else
                           (case extractSectionContent (body doc) (the (param u)) (toc doc) of
                              None \<Rightarrow> Inl (''Section not found: '' @ the (param u))
                            | Some sectionContent \<Rightarrow>
                                Inr [\<lparr> rc_uri = uri, mimeType = MimeString ''text/markdown'',
                                       rc_text = sectionContent \<rparr>]))
                | Code \<Rightarrow>
                    (case parsed skill of
                       None \<Rightarrow> Inl (''Skill not parsed: '' @ uri_name u)
                     | Some doc \<Rightarrow>
                         if param u = None \<or> param u = Some [] then
                           Inl ''Code block index required''
                         else
                           let index = parseInt (the (param u));
                               n = int (length (codeBlocks doc))
                           in
                             if index = None \<or> the index < 0 \<or> the index \<ge> n then
                               Inl (''Invalid code block index: '' @ the (param u) @
                                    ''. Valid range: 0-'' @ show_int (n - 1))
                             else
                               let codeBlock = codeBlocks doc ! nat (the index)
                               in Inr [\<lparr> rc_uri = uri,
                                        mimeType =
                                          MimeString
                                            (case lang codeBlock of
                                               None \<Rightarrow> ''text/plain''
                                             | Some l \<Rightarrow>
                                                 if l = [] then ''text/plain''
                                                 else ''text/x-'' @ l),
                                        rc_text = content codeBlock \<rparr>])
                | _ \<Rightarrow>
                    if param u = None \<or> param u = Some [] then Inl ''File name required''
                    else
                      let filePath = path_join [skill_path skill, type_name (uri_type u),
                                                the (param u)]
                      in (case readFile filePath of
                            Inl err \<Rightarrow>
                              Inl (''File not found: '' @ type_name (uri_type u) @ ''/'' @
                                   the (param u))
                          | Inr txt \<Rightarrow>
                              Inr [\<lparr> rc_uri = uri, mimeType = guessMimeType (the (param u)),
                                     rc_text = txt \<rparr>]))))"

section \<open>Running scripts (tools.ts)\<close>

text \<open>\<open>s.includes(sub)\<close>.\<close>

fun js_includes :: "string \<Rightarrow> string \<Rightarrow> bool" where
  "js_includes [] sub = (sub = [])"
| "js_includes (x # xs) sub = (startsWith (x # xs) sub \<or> js_includes xs sub)"

definition ALLOWED_EXTENSIONS :: "string list" where
  "ALLOWED_EXTENSIONS = [''.sh'', ''.js'', ''.ts'', ''.py'']"

text \<open>
  \<open>validateScriptPath\<close>: \<open>Inl\<close> carries the error of an invalid request, \<open>Inr\<close> the
  full path of a valid one. The working directory of the process, which \<open>resolve\<close>
  consults for a relative path, is an argument.
\<close>

definition validateScriptPath :: "string \<Rightarrow> string \<Rightarrow> string \<Rightarrow> string + string" where
  "validateScriptPath cwd scriptName skillPath =
     (let normalizedScript = path_normalize scriptName
      in
        if js_includes normalizedScript ''..'' \<or> startsWith normalizedScript ''/''
           \<or> js_includes normalizedScript [CHR 0x5C]
        then Inl ''Invalid script path: path traversal not allowed''
        else
          let ext = js_toLowerCase (path_extname scriptName)
          in
            if ext \<notin> set ALLOWED_EXTENSIONS then
              Inl (''Invalid script extension: '' @ ext @ ''. Allowed extensions: '' @
                   join_with '', '' ALLOWED_EXTENSIONS)
            else
              let scriptsDir = path_join [skillPath, ''scripts''];
                  fullPath = path_resolve cwd [scriptsDir, path_basename scriptName]
              in
                if \<not> startsWith fullPath scriptsDir then
                  Inl ''Invalid script path: must be within scripts directory''
                else Inr fullPath)"

definition getScriptCommand :: "string \<Rightarrow> string \<times> string list" where
  "getScriptCommand scriptPath =
     (let ext = js_toLowerCase (path_extname scriptPath)
      in
        if ext = ''.sh'' then (''bash'', [scriptPath])
        else if ext = ''.js'' then (''node'', [scriptPath])
        else if ext = ''.ts'' then (''npx'', [''tsx'', scriptPath])
        else if ext = ''.py'' then (''python3'', [scriptPath])
        else (''bash'', [scriptPath]))"

record ScriptResult =
  stdout :: string
  stderr :: string
  exitCode :: "int option"

text \<open>
  \<open>executeScript\<close> registers handlers on the child process and two timers; what runs
  them is the order in which the runtime delivers the events. The state holds the local
  variables of the function, the \<open>killed\<close> flag of the child process (Node sets it when
  \<open>kill\<close> has delivered a signal), the signals sent, and the promise: unsettled, or
  settled by the first call of \<open>resolve\<close>.
\<close>

datatype signal = SIGTERM | SIGKILL

datatype proc_event =
    StdoutData string
  | StderrData string
  | SpawnTimeoutFired bool
  | TimeoutFired bool
  | GraceFired bool
  | Close "int option"
  | SpawnError string

record exec_state =
  ex_stdout :: string
  ex_stderr :: string
  killed :: bool
  proc_killed :: bool
  timer_cleared :: bool
  sent :: "signal list"
  resolved :: "ScriptResult option"

definition exec_init :: exec_state where
  "exec_init =
     \<lparr> ex_stdout = [], ex_stderr = [], killed = False, proc_killed = False,
       timer_cleared = False, sent = [], resolved = None \<rparr>"

definition resolve :: "ScriptResult \<Rightarrow> exec_state \<Rightarrow> exec_state" where
  "resolve r st = (case resolved st of None \<Rightarrow> st \<lparr> resolved := Some r \<rparr> | Some r' \<Rightarrow> st)"

text \<open>
  \<open>proc.kill(sig)\<close>: when the process still exists the signal is delivered and the
  \<open>killed\<close> flag of the process is set; otherwise nothing changes.
\<close>

definition proc_kill :: "signal \<Rightarrow> bool \<Rightarrow> exec_state \<Rightarrow> exec_state" where
  "proc_kill sig alive st =
     (if alive then st \<lparr> sent := sent st @ [sig], proc_killed := True \<rparr> else st)"

text \<open>
  The handlers. The event of a timer says whether the process still exists when the
  timer fires. The process is spawned with the option \<open>timeout\<close>, so the runtime has a
  timer of its own that calls \<open>kill\<close> with \<open>SIGTERM\<close>. The timer of the timeout
  fires once at most, and not after \<open>clearTimeout\<close>; the grace timer is set by the
  timeout handler only, and sends \<open>SIGKILL\<close> only when the \<open>killed\<close> flag of the
  process is not set.
\<close>

fun handle :: "exec_state \<Rightarrow> proc_event \<Rightarrow> exec_state" where
  "handle st (StdoutData d) = st \<lparr> ex_stdout := ex_stdout st @ d \<rparr>"
| "handle st (StderrData d) = st \<lparr> ex_stderr := ex_stderr st @ d \<rparr>"
| "handle st (SpawnTimeoutFired alive) = proc_kill SIGTERM alive st"
| "handle st (TimeoutFired alive) =
     (if timer_cleared st \<or> killed st then st
      else proc_kill SIGTERM alive (st \<lparr> killed := True \<rparr>))"
| "handle st (GraceFired alive) =
     (if killed st \<and> \<not> proc_killed st then proc_kill SIGKILL alive st else st)"
| "handle st (Close code) =
     (let st' = st \<lparr> timer_cleared := True \<rparr>
      in if killed st then
           resolve \<lparr> stdout = ex_stdout st,
                     stderr = ex_stderr st @ ''\<newline>[Script execution timed out]'',
                     exitCode = None \<rparr> st'
         else
           resolve \<lparr> stdout = ex_stdout st, stderr = ex_stderr st, exitCode = code \<rparr> st')"
| "handle st (SpawnError msg) =
     resolve \<lparr> stdout = ex_stdout st,
               stderr = ex_stderr st @ ''\<newline>[Script execution error: '' @ msg @ '']'',
               exitCode = None \<rparr>
       (st \<lparr> timer_cleared := True \<rparr>)"

record spawn_call =
  command :: string
  spawn_args :: "string list"
  cwd :: string
  spawn_timeout :: nat

text \<open>
  \<open>executeScript\<close>: the process is spawned, and the events the runtime delivers for it
  run the handlers. The result is the settled value of the promise, \<open>None\<close> while it is
  pending, together with the call that spawned the process.
\<close>

definition executeScript ::
  "(spawn_call \<Rightarrow> proc_event list) \<Rightarrow> string \<Rightarrow> string list \<Rightarrow> string \<Rightarrow> nat
     \<Rightarrow> ScriptResult option \<times> spawn_call" where
  "executeScript spawn scriptPath args dir timeoutMs =
     (case getScriptCommand scriptPath of
        (cmd, cmdArgs) \<Rightarrow>
          let fullArgs = cmdArgs @ args;
              call = \<lparr> command = cmd, spawn_args = fullArgs, cwd = dir,
                       spawn_timeout = timeoutMs \<rparr>
          in (resolved (foldl handle exec_init (spawn call)), call))"

datatype ToolResult = successResult ScriptResult | errorResult string

text \<open>
  The arguments of the tool after \<open>RunSkillScriptInputSchema.safeParse\<close>: a failure with
  its message, or the skill, the script and the optional arguments.
\<close>

datatype parsed_input = ParseFailure string | ParseSuccess string string "string list option"

text \<open>
  \<open>run_skill_script\<close>: the result of the tool (\<open>None\<close> while the execution is pending)
  and the processes spawned.
\<close>

definition run_skill_script ::
  "bool \<Rightarrow> nat \<Rightarrow> (string \<Rightarrow> bool) \<Rightarrow> (spawn_call \<Rightarrow> proc_event list) \<Rightarrow> string
     \<Rightarrow> SkillDiscovery \<Rightarrow> parsed_input \<Rightarrow> ToolResult option \<times> spawn_call list" where
  "run_skill_script allowScripts scriptTimeout accessible spawn workdir discovery input =
     (if \<not> allowScripts then
        (Some (errorResult ''Script execution is disabled. Enable with --allow-scripts flag.''), [])
      else
        case input of
          ParseFailure msg \<Rightarrow> (Some (errorResult (''Invalid input: '' @ msg)), [])
        | ParseSuccess skillName script argsOpt \<Rightarrow>
            let scriptArgs = (case argsOpt of None \<Rightarrow> [] | Some a \<Rightarrow> a)
            in
              (case getSkill discovery skillName of
                 None \<Rightarrow> (Some (errorResult (''Skill not found: '' @ skillName)), [])
               | Some skill \<Rightarrow>
                   (case validateScriptPath workdir script (skill_path skill) of
                      Inl err \<Rightarrow> (Some (errorResult err), [])
                    | Inr scriptPath \<Rightarrow>
                        if \<not> accessible scriptPath then
                          (Some (errorResult (''Script not found: '' @ script)), [])
                        else
                          (case executeScript spawn scriptPath scriptArgs (skill_path skill)
                                  scriptTimeout of
                             (result, call) \<Rightarrow> (map_option successResult result, [call])))))"

text \<open>
  For a trace of events: the events that settle the promise, and the output the data
  events carry.
\<close>

fun terminal :: "proc_event \<Rightarrow> bool" where
  "terminal (Close code) = True"
| "terminal (SpawnError msg) = True"
| "terminal ev = False"

fun timeout_event :: "proc_event \<Rightarrow> bool" where
  "timeout_event (TimeoutFired alive) = True"
| "timeout_event ev = False"

fun stdout_of :: "proc_event list \<Rightarrow> string" where
  "stdout_of [] = []"
| "stdout_of (StdoutData d # evs) = d @ stdout_of evs"
| "stdout_of (ev # evs) = stdout_of evs"

fun stderr_of :: "proc_event list \<Rightarrow> string" where
  "stderr_of [] = []"
| "stderr_of (StderrData d # evs) = d @ stderr_of evs"
| "stderr_of (ev # evs) = stderr_of evs"

section \<open>Properties\<close>

subsection \<open>Strings and arrays\<close>

lemma js_slice_take: "js_slice xs 0 (int n) = take n xs"
  by (simp add: js_slice_def js_index_def min_def)

lemma split_on_nonempty: "split_on c xs \<noteq> []"
  by (induction xs) (auto split: list.splits)

lemma split_on_no_sep: "s \<in> set (split_on c xs) \<Longrightarrow> c \<notin> set s"
proof (induction xs arbitrary: s)
  case Nil
  then show ?case by simp
next
  case (Cons x xs)
  show ?case
  proof (cases "x = c")
    case True
    with Cons show ?thesis by auto
  next
    case False
    obtain y ys where sp: "split_on c xs = y # ys"
      using split_on_nonempty [of c xs] by (cases "split_on c xs") auto
    from Cons.prems False sp have "s = x # y \<or> s \<in> set ys" by simp
    then show ?thesis
    proof
      assume "s = x # y"
      moreover have "c \<notin> set y" using Cons.IH [of y] sp by simp
      ultimately show ?thesis using False by auto
    next
      assume "s \<in> set ys"
      then show ?thesis using Cons.IH [of s] sp by simp
    qed
  qed
qed

subsection \<open>URI parsing\<close>

lemma parseSkillUri_spec:
  "parseSkillUri uri =
     (if startsWith uri ''loadout://'' then spec_uri_shape (uri_segments uri) else None)"
proof (cases "startsWith uri ''loadout://''")
  case False
  then show ?thesis by (simp add: parseSkillUri_def)
next
  case True
  define segs where "segs = uri_segments uri"
  have e: "filter (\<lambda>s. length s > 0)
             (split_on CHR ''/'' (drop (length ''loadout://'') uri)) = segs"
    unfolding uri_segments_def segs_def by simp
  show ?thesis
  proof (cases segs)
    case Nil
    then show ?thesis
      using True unfolding parseSkillUri_def Let_def e segs_def [symmetric] by simp
  next
    case outer: (Cons n r)
    show ?thesis
    proof (cases r)
      case Nil
      then show ?thesis
        using True outer unfolding parseSkillUri_def Let_def e segs_def [symmetric] by simp
    next
      case (Cons t rest)
      show ?thesis
        unfolding parseSkillUri_def Let_def e segs_def [symmetric]
        using True outer Cons
        by (cases rest; cases "tl rest") auto
    qed
  qed
qed

lemma uri_segments_plain:
  "s \<in> set (uri_segments uri) \<Longrightarrow> s \<noteq> [] \<and> CHR ''/'' \<notin> set s"
  using split_on_no_sep by (auto simp: uri_segments_def)

text \<open>
  C3. For every URI string, \<open>parseSkillUri\<close> answers what the parsing rule of the
  specification answers on the non-empty segments of the part after the scheme: a content
  request for one segment, a manifest request for \<open>manifest\<close> with nothing after it, a
  section or code request for exactly one further segment, a references, scripts or assets
  request for one or more further segments joined with a slash, and the invalid result in
  every other case (also when the scheme is missing). The segments are non-empty and hold
  no slash.
\<close>

theorem parseSkillUri_shape:
  "parseSkillUri uri =
     (if startsWith uri ''loadout://'' then spec_uri_shape (uri_segments uri) else None)
   \<and> (\<forall>s \<in> set (uri_segments uri). s \<noteq> [] \<and> CHR ''/'' \<notin> set s)"
  using parseSkillUri_spec [of uri] uri_segments_plain [of _ uri] by blast

theorem parseSkillUri_shape_witness:
  "parseSkillUri ''loadout://my-skill/references/docs/api/v2.md'' =
     Some \<lparr> uri_name = ''my-skill'', uri_type = References,
            param = Some ''docs/api/v2.md'' \<rparr>"
proof -
  have segs: "uri_segments ''loadout://my-skill/references/docs/api/v2.md'' =
      [''my-skill'', ''references'', ''docs'', ''api'', ''v2.md'']"
    by (simp add: uri_segments_def)
  have pre: "startsWith ''loadout://my-skill/references/docs/api/v2.md'' ''loadout://''"
    by (simp add: startsWith_def)
  have shape: "spec_uri_shape [''my-skill'', ''references'', ''docs'', ''api'', ''v2.md''] =
     Some \<lparr> uri_name = ''my-skill'', uri_type = References,
            param = Some ''docs/api/v2.md'' \<rparr>"
    by simp
  from parseSkillUri_shape [of "''loadout://my-skill/references/docs/api/v2.md''"]
  show ?thesis
    unfolding segs shape using pre by (simp only: if_True)
qed

subsection \<open>Manifest previews\<close>

text \<open>
  C7. For every parsed document and every index \<open>i\<close> of a code block, the preview of
  entry \<open>i\<close> of the manifest is the block's content cut to its first 100 characters: it
  is a prefix of the content, never longer than 100 characters, and shorter than 100
  exactly when the content is.
\<close>

theorem createManifest_preview:
  assumes "i < length (codeBlocks p)"
  shows "length (m_codeBlocks (createManifest p)) = length (codeBlocks p)
       \<and> preview (m_codeBlocks (createManifest p) ! i) = take 100 (content (codeBlocks p ! i))
       \<and> prefix (preview (m_codeBlocks (createManifest p) ! i)) (content (codeBlocks p ! i))
       \<and> length (preview (m_codeBlocks (createManifest p) ! i)) \<le> 100
       \<and> (length (preview (m_codeBlocks (createManifest p) ! i)) < 100
            \<longleftrightarrow> length (content (codeBlocks p ! i)) < 100)"
proof -
  have pv: "preview (m_codeBlocks (createManifest p) ! i) = take 100 (content (codeBlocks p ! i))"
    using assms js_slice_take [of "content (codeBlocks p ! i)" 100]
    by (simp add: createManifest_def)
  have len: "length (m_codeBlocks (createManifest p)) = length (codeBlocks p)"
    by (simp add: createManifest_def)
  have pre: "prefix (take 100 (content (codeBlocks p ! i))) (content (codeBlocks p ! i))"
    by (rule take_is_prefix)
  show ?thesis
    unfolding pv using len pre by auto
qed

theorem createManifest_preview_witness:
  "preview (m_codeBlocks (createManifest
      \<lparr> frontmatter = \<lparr> fm_name = ''s'', fm_description = ''d'', fm_license = None,
                        fm_version = None, fm_author = None \<rparr>,
        body = [], toc = [],
        codeBlocks = [\<lparr> lang = None, cb_line = 1, content = replicate 150 CHR ''x'' \<rparr>,
                      \<lparr> lang = Some ''js'', cb_line = 5, content = ''const x = 1;'' \<rparr>],
        links = [], files = \<lparr> scripts = [], references = [], assets = [] \<rparr> \<rparr>) ! 1)
   = ''const x = 1;''"
  using createManifest_preview [of 1
      "\<lparr> frontmatter = \<lparr> fm_name = ''s'', fm_description = ''d'', fm_license = None,
                        fm_version = None, fm_author = None \<rparr>,
        body = [], toc = [],
        codeBlocks = [\<lparr> lang = None, cb_line = 1, content = replicate 150 CHR ''x'' \<rparr>,
                      \<lparr> lang = Some ''js'', cb_line = 5, content = ''const x = 1;'' \<rparr>],
        links = [], files = \<lparr> scripts = [], references = [], assets = [] \<rparr> \<rparr>"]
  by simp

subsection \<open>Section extraction\<close>























subsection \<open>Watching and closing\<close>

text \<open>
  C10. From every state, \<open>close\<close> leaves no watcher; closing again changes nothing, and
  closing a discovery that is not watching leaves the state as it is. A \<open>watch\<close> after a
  \<open>close\<close> opens a new watcher on the search paths (one more call to the watcher
  library), and the events of the file system reach the handlers again, while in the
  closed state they are dropped: the closed state is not final.
\<close>

theorem close_then_watch:
  "watcher (close st) = None
   \<and> close (close st) = close st
   \<and> (watcher st = None \<longrightarrow> close st = st)
   \<and> watcher (watch (close st)) =
        Some \<lparr> patterns = map (\<lambda>p. path_join [p, ''*'', ''SKILL.md'']) (searchPaths st) \<rparr>
   \<and> watcher_calls (watch (close st)) =
        watcher_calls (close st) @
          [ChokidarWatch (map (\<lambda>p. path_join [p, ''*'', ''SKILL.md'']) (searchPaths st))]
   \<and> deliver env ev (close st) = close st
   \<and> deliver env (Unlink filePath) (watch (close st)) = on_unlink filePath (watch (close st))
   \<and> deliver env (Add filePath) (watch (close st)) = on_add env filePath (watch (close st))
   \<and> deliver env (Change filePath) (watch (close st)) = on_change env filePath (watch (close st))"
proof -
  have c: "watcher (close st) = None"
    by (simp add: close_def split: option.splits)
  have sp: "searchPaths (close st) = searchPaths st"
    by (simp add: close_def split: option.splits)
  have w: "watcher (watch (close st)) =
        Some \<lparr> patterns = map (\<lambda>p. path_join [p, ''*'', ''SKILL.md'']) (searchPaths st) \<rparr>"
    using c sp by (simp add: watch_def Let_def)
  have cc: "close (close st) = close st"
    using c by (simp add: close_def [of "close st"])
  have idle: "watcher st = None \<longrightarrow> close st = st"
    by (simp add: close_def)
  have calls: "watcher_calls (watch (close st)) =
        watcher_calls (close st) @
          [ChokidarWatch (map (\<lambda>p. path_join [p, ''*'', ''SKILL.md'']) (searchPaths st))]"
    using c sp by (simp add: watch_def Let_def)
  have d0: "deliver env ev (close st) = close st"
    using c by (simp add: deliver_def)
  have d1: "deliver env (Unlink filePath) (watch (close st)) = on_unlink filePath (watch (close st))"
    using w by (simp add: deliver_def)
  have d2: "deliver env (Add filePath) (watch (close st)) = on_add env filePath (watch (close st))"
    using w by (simp add: deliver_def)
  have d3: "deliver env (Change filePath) (watch (close st)) = on_change env filePath (watch (close st))"
    using w by (simp add: deliver_def)
  from c cc idle w calls d0 d1 d2 d3 show ?thesis by blast
qed

lemma demo_default_paths:
  "default_searchPaths ''/app/dist'' ''/work'' ''/home/u'' = demo_defaults"
  by code_simp

lemma demo_discovery_state:
  "roots \<noteq> [] \<Longrightarrow> demo_discovery roots = new_discovery (demo_defaults @ roots)"
  by (simp add: demo_discovery_def SkillDiscovery_constructor_def demo_default_paths)

lemma demo_patterns_eq:
  "map (\<lambda>p. path_join [p, ''*'', ''SKILL.md'']) (demo_defaults @ [''/r'']) = demo_patterns"
  by code_simp

theorem close_then_watch_witness:
  "watcher (watch (close (watch (demo_discovery [''/r''])))) = Some \<lparr> patterns = demo_patterns \<rparr>
   \<and> close (demo_discovery [''/r'']) = demo_discovery [''/r'']
   \<and> watcher_calls (watch (close (watch (demo_discovery [''/r'']))))
       = [ChokidarWatch demo_patterns, WatcherClose \<lparr> patterns = demo_patterns \<rparr>,
          ChokidarWatch demo_patterns]"
proof -
  let ?st = "watch (demo_discovery [''/r''])"
  have d: "demo_discovery [''/r''] = new_discovery (demo_defaults @ [''/r''])"
    by (rule demo_discovery_state) simp
  have sp: "searchPaths ?st = demo_defaults @ [''/r'']"
    unfolding d by (simp add: watch_def new_discovery_def Let_def)
  have n: "watcher (demo_discovery [''/r'']) = None"
    unfolding d by (simp add: new_discovery_def)
  have cl: "watcher_calls (close ?st) =
      [ChokidarWatch demo_patterns, WatcherClose \<lparr> patterns = demo_patterns \<rparr>]"
    unfolding d using demo_patterns_eq
    by (simp add: close_def watch_def new_discovery_def Let_def)
  note t = close_then_watch [of ?st]
  note t0 = close_then_watch [of "demo_discovery [''/r'']"]
  have a: "watcher (watch (close ?st)) = Some \<lparr> patterns = demo_patterns \<rparr>"
    using t sp demo_patterns_eq by simp
  have b: "close (demo_discovery [''/r'']) = demo_discovery [''/r'']"
    using t0 n by blast
  have c: "watcher_calls (watch (close ?st))
       = [ChokidarWatch demo_patterns, WatcherClose \<lparr> patterns = demo_patterns \<rparr>,
          ChokidarWatch demo_patterns]"
    using t sp demo_patterns_eq cl by simp
  from a b c show ?thesis by blast
qed

subsection \<open>The registry\<close>

lemma map_set_keys: "set (map fst (map_set m k v)) = insert k (set (map fst m))"
  by (induction m k v rule: map_set.induct) auto

lemma map_set_distinct: "distinct (map fst m) \<Longrightarrow> distinct (map fst (map_set m k v))"
proof (induction m)
  case Nil
  then show ?case by simp
next
  case (Cons e m)
  obtain k' v' where e: "e = (k', v')" by (cases e)
  show ?case
  proof (cases "k' = k")
    case True
    with Cons.prems e show ?thesis by simp
  next
    case False
    have "k' \<notin> set (map fst (map_set m k v))"
      using Cons.prems e False by (simp only: map_set_keys) auto
    with Cons e False show ?thesis by simp
  qed
qed

lemma map_set_entries: "set (map_set m k v) \<subseteq> insert (k, v) (set m)"
  by (induction m k v rule: map_set.induct) auto

lemma map_get_map_set: "map_get (map_set m k v) k' = (if k' = k then Some v else map_get m k')"
  by (induction m k v rule: map_set.induct) (auto simp: map_get_def)

lemma wf_map_set:
  assumes "wf_registry m" "k = skill_name v" "skill_path v = path_dirname (skillMdPath v)"
  shows "wf_registry (map_set m k v)"
proof -
  have "\<forall>e \<in> set (map_set m k v). fst e = skill_name (snd e) \<and>
           skill_path (snd e) = path_dirname (skillMdPath (snd e))"
    using assms map_set_entries [of m k v]
    by (auto simp: wf_registry_def list_all_iff)
  then show ?thesis
    using assms(1) map_set_distinct [of m k v] by (simp add: wf_registry_def list_all_iff)
qed

lemma wf_map_delete: "wf_registry m \<Longrightarrow> wf_registry (map_delete m k)"
  by (auto simp: wf_registry_def map_delete_def list_all_iff distinct_map_filter)

lemma map_get_map_delete:
  "map_get (map_delete m k) k' = (if k' = k then None else map_get m k')"
  by (induction m) (auto simp: map_get_def map_delete_def)

lemma skills_emit [simp]: "skills (emit ev st) = skills st"
  by (simp add: emit_def)

lemma watcher_emit [simp]: "watcher (emit ev st) = watcher st"
  by (simp add: emit_def)

lemma emitted_emit [simp]: "emitted (emit ev st) = emitted st @ [ev]"
  by (simp add: emit_def)

lemma discover_result:
  assumes "discoverSkillFromPath env mdPath st = (r, st')"
  shows "skills st' = skills st
       \<and> (\<forall>skill. r = Some skill \<longrightarrow>
             skill_path skill = path_dirname (skillMdPath skill) \<and> skillMdPath skill = mdPath
             \<and> emitted st' = emitted st)
       \<and> (r = None \<longrightarrow> (\<exists>err. emitted st' = emitted st @ [ErrorEvent err]))"
  using assms by (auto simp: discoverSkillFromPath_def Let_def split: sum.splits)

lemma wf_scanEntry: "wf_registry (skills st) \<Longrightarrow> wf_registry (skills (scanEntry env sp e st))"
proof -
  assume wf: "wf_registry (skills st)"
  obtain r st' where d: "discoverSkillFromPath env (path_join [sp, fst e, ''SKILL.md'']) st = (r, st')"
    by (cases "discoverSkillFromPath env (path_join [sp, fst e, ''SKILL.md'']) st")
  note dr = discover_result [OF d]
  show ?thesis
  proof (cases r)
    case None
    then show ?thesis using wf d dr by (simp add: scanEntry_def Let_def)
  next
    case (Some skill)
    then have "wf_registry (map_set (skills st') (skill_name skill) skill)"
      using wf dr wf_map_set by simp
    then show ?thesis using wf d dr Some by (simp add: scanEntry_def Let_def)
  qed
qed

lemma wf_fold:
  assumes "\<And>x s. wf_registry (skills s) \<Longrightarrow> wf_registry (skills (f x s))"
  shows "wf_registry (skills st) \<Longrightarrow> wf_registry (skills (fold f xs st))"
  using assms by (induction xs arbitrary: st) auto

lemma wf_scanPath: "wf_registry (skills st) \<Longrightarrow> wf_registry (skills (scanPath env sp st))"
  by (auto simp: scanPath_def split: sum.splits intro: wf_fold wf_scanEntry)

lemma wf_scan: "wf_registry (skills st) \<Longrightarrow> wf_registry (skills (scan env st))"
  unfolding scan_def by (rule wf_fold) (rule wf_scanPath)

lemma wf_on_add: "wf_registry (skills st) \<Longrightarrow> wf_registry (skills (on_add env f st))"
proof -
  assume wf: "wf_registry (skills st)"
  obtain r st' where d: "discoverSkillFromPath env f st = (r, st')"
    by (cases "discoverSkillFromPath env f st")
  note dr = discover_result [OF d]
  show ?thesis
  proof (cases r)
    case None
    then show ?thesis using wf d dr by (simp add: on_add_def)
  next
    case (Some skill)
    then have "wf_registry (map_set (skills st') (skill_name skill) skill)"
      using wf dr wf_map_set by simp
    then show ?thesis using wf d dr Some by (simp add: on_add_def Let_def split: option.splits)
  qed
qed

lemma wf_on_change: "wf_registry (skills st) \<Longrightarrow> wf_registry (skills (on_change env f st))"
proof -
  assume wf: "wf_registry (skills st)"
  obtain r st' where d: "discoverSkillFromPath env f st = (r, st')"
    by (cases "discoverSkillFromPath env f st")
  note dr = discover_result [OF d]
  show ?thesis
  proof (cases r)
    case None
    then show ?thesis using wf d dr by (simp add: on_change_def)
  next
    case (Some skill)
    then have "wf_registry (map_set (skills st') (skill_name skill) skill)"
      using wf dr wf_map_set by simp
    then show ?thesis using wf d dr Some by (simp add: on_change_def Let_def)
  qed
qed

lemma unlink_loop_find:
  "unlink_loop f d rest st =
     (case List.find (\<lambda>e. skillMdPath (snd e) = f) rest of
        None \<Rightarrow> st
      | Some e \<Rightarrow> emit (SkillRemoved (fst e) d) (st \<lparr> skills := map_delete (skills st) (fst e) \<rparr>))"
  by (induction rest) auto

lemma wf_on_unlink: "wf_registry (skills st) \<Longrightarrow> wf_registry (skills (on_unlink f st))"
  by (simp add: on_unlink_def unlink_loop_find wf_map_delete split: option.splits)

lemma wf_deliver: "wf_registry (skills st) \<Longrightarrow> wf_registry (skills (deliver env ev st))"
  by (cases ev) (simp_all add: deliver_def wf_on_add wf_on_change wf_on_unlink split: option.splits)

lemma reachable_wf: "reachable st \<Longrightarrow> wf_registry (skills st)"
proof (induction rule: reachable.induct)
  case (init moduleDir workDir home customPaths)
  show ?case by (simp add: SkillDiscovery_constructor_def new_discovery_def wf_registry_def)
next
  case (scan st env)
  then show ?case by (simp add: wf_scan)
next
  case (watch st)
  then show ?case by (simp add: watch_def Let_def split: option.splits)
next
  case (close st)
  then show ?case by (simp add: close_def split: option.splits)
next
  case (deliver st env ev)
  then show ?case by (simp add: wf_deliver)
qed

subsection \<open>Deleted manifests\<close>

text \<open>
  C8 (as the code has it). In every state a discovery can reach, while a watcher is
  open, the deletion of a manifest file removes the first record, in the order of the
  registry, whose manifest path is that file, and emits exactly one removed event, with
  that record's name and its directory; afterwards the name is absent from the registry,
  and every record with another manifest path is as before.
\<close>

theorem unlink_removes_record:
  assumes reach: "reachable st"
    and watching: "watcher st \<noteq> None"
    and first: "skills st = before @ (name, skill) # after"
    and path: "skillMdPath skill = filePath"
    and none_before: "list_all (\<lambda>e. skillMdPath (snd e) \<noteq> filePath) before"
  shows "emitted (deliver env (Unlink filePath) st) =
           emitted st @ [SkillRemoved name (skill_path skill)]
       \<and> skill_name skill = name
       \<and> getSkill (deliver env (Unlink filePath) st) name = None
       \<and> (\<forall>n s. getSkill st n = Some s \<and> skillMdPath s \<noteq> filePath
             \<longrightarrow> getSkill (deliver env (Unlink filePath) st) n = Some s)"
proof -
  have wf: "wf_registry (skills st)" using reach by (rule reachable_wf)
  have mem: "(name, skill) \<in> set (skills st)" using first by simp
  have rec: "skill_name skill = name" "skill_path skill = path_dirname filePath"
    using wf mem path by (auto simp: wf_registry_def list_all_iff)
  have f: "List.find (\<lambda>e. skillMdPath (snd e) = filePath) (skills st) = Some (name, skill)"
    unfolding first using none_before path by (induction before) auto
  have d: "deliver env (Unlink filePath) st =
      emit (SkillRemoved name (path_dirname filePath))
        (st \<lparr> skills := map_delete (skills st) name \<rparr>)"
    using watching f by (auto simp: deliver_def on_unlink_def unlink_loop_find)
  have g: "getSkill st name = Some skill"
    using wf mem by (simp add: getSkill_def map_get_def wf_registry_def)
  have frame: "\<forall>n s. getSkill st n = Some s \<and> skillMdPath s \<noteq> filePath
             \<longrightarrow> getSkill (deliver env (Unlink filePath) st) n = Some s"
  proof (intro allI impI)
    fix n s assume a: "getSkill st n = Some s \<and> skillMdPath s \<noteq> filePath"
    then have "n \<noteq> name" using g path by auto
    then show "getSkill (deliver env (Unlink filePath) st) n = Some s"
      unfolding d using a by (simp add: getSkill_def map_get_map_delete)
  qed
  show ?thesis
    unfolding d using rec frame [unfolded d] by (simp add: getSkill_def map_get_map_delete)
qed

subsection \<open>The example environment\<close>

lemma demo_join:
  "path_join [''/r'', ''foo'', ''SKILL.md''] = ''/r/foo/SKILL.md''"
  "path_join [''/s'', ''foo'', ''SKILL.md''] = ''/s/foo/SKILL.md''"
  "path_join [''/r'', ''notes.txt'', ''SKILL.md''] = ''/r/notes.txt/SKILL.md''"
  "path_join [''/s'', ''notes.txt'', ''SKILL.md''] = ''/s/notes.txt/SKILL.md''"
  by (simp_all add: path_join_def path_normalize_def normalizeString_def)

lemma demo_dirname:
  "path_dirname ''/r/foo/SKILL.md'' = ''/r/foo''"
  "path_dirname ''/s/foo/SKILL.md'' = ''/s/foo''"
  by (simp_all add: path_dirname_def)

lemma demo_discover:
  "discoverSkillFromPath demo_env ''/r/foo/SKILL.md'' st = (Some (demo_skill ''/r''), st)"
  "discoverSkillFromPath demo_env ''/s/foo/SKILL.md'' st = (Some (demo_skill ''/s''), st)"
  by (simp_all add: discoverSkillFromPath_def demo_env_def demo_dirname demo_skill_def
        demo_parsed_def Let_def)

lemma demo_scanEntry_r:
  "scanEntry demo_env ''/r'' (''foo'', True) st =
     emit (SkillDiscovered (demo_skill ''/r''))
       (st \<lparr> skills := map_set (skills st) ''foo'' (demo_skill ''/r'') \<rparr>)"
  unfolding scanEntry_def by (simp add: demo_join demo_discover Let_def) (simp add: demo_env_def demo_skill_def)

lemma demo_scanEntry_s:
  "scanEntry demo_env ''/s'' (''foo'', True) st =
     emit (SkillDiscovered (demo_skill ''/s''))
       (st \<lparr> skills := map_set (skills st) ''foo'' (demo_skill ''/s'') \<rparr>)"
  unfolding scanEntry_def by (simp add: demo_join demo_discover Let_def) (simp add: demo_env_def demo_skill_def)

lemma demo_scanEntry_file: "scanEntry demo_env root (''notes.txt'', False) st = st"
  by (simp add: scanEntry_def)

lemma demo_scanPath_r:
  "scanPath demo_env ''/r'' st =
     emit (SkillDiscovered (demo_skill ''/r''))
       (st \<lparr> skills := map_set (skills st) ''foo'' (demo_skill ''/r'') \<rparr>)"
proof -
  have "scanPath demo_env ''/r'' st = fold (scanEntry demo_env ''/r'') [(''foo'', True), (''notes.txt'', False)] st"
    by (simp add: scanPath_def demo_env_def)
  then show ?thesis by (simp add: demo_scanEntry_r demo_scanEntry_file)
qed

lemma demo_scanPath_s:
  "scanPath demo_env ''/s'' st =
     emit (SkillDiscovered (demo_skill ''/s''))
       (st \<lparr> skills := map_set (skills st) ''foo'' (demo_skill ''/s'') \<rparr>)"
proof -
  have "scanPath demo_env ''/s'' st = fold (scanEntry demo_env ''/s'') [(''foo'', True), (''notes.txt'', False)] st"
    by (simp add: scanPath_def demo_env_def)
  then show ?thesis by (simp add: demo_scanEntry_s demo_scanEntry_file)
qed

lemma demo_absent_root: "p \<noteq> ''/r'' \<Longrightarrow> p \<noteq> ''/s'' \<Longrightarrow> scanPath demo_env p st = st"
  by (simp add: scanPath_def demo_env_def)

lemma demo_scan_defaults: "fold (scanPath demo_env) demo_defaults st = st"
  by (simp add: demo_defaults_def demo_absent_root)

lemma demo_discovery_scan:
  "scan demo_env (demo_discovery [''/r'']) =
     (demo_discovery [''/r'']) \<lparr> skills := [(''foo'', demo_skill ''/r'')],
                               emitted := [SkillDiscovered (demo_skill ''/r'')] \<rparr>"
  by (simp add: scan_def demo_discovery_state new_discovery_def demo_scan_defaults
        demo_scanPath_r emit_def)

lemma watch_keeps:
  "skills (watch st) = skills st" "emitted (watch st) = emitted st" "watcher (watch st) \<noteq> None"
  by (simp_all add: watch_def Let_def split: option.splits)

lemma deliver_unlink: "watcher st \<noteq> None \<Longrightarrow> deliver env (Unlink f) st = on_unlink f st"
  by (auto simp: deliver_def)

lemma deliver_change: "watcher st \<noteq> None \<Longrightarrow> deliver env (Change f) st = on_change env f st"
  by (auto simp: deliver_def)

lemma renamed_discover:
  "discoverSkillFromPath renamed_env ''/r/foo/SKILL.md'' st = (Some renamed_skill, st)"
  by (simp add: discoverSkillFromPath_def renamed_env_def demo_env_def demo_dirname
        renamed_skill_def renamed_parsed_def demo_parsed_def Let_def)

lemma renamed_state:
  "skills (deliver renamed_env (Change ''/r/foo/SKILL.md'')
             (watch (scan demo_env (demo_discovery [''/r'']))))
     = [(''foo'', demo_skill ''/r''), (''bar'', renamed_skill)]"
  "emitted (deliver renamed_env (Change ''/r/foo/SKILL.md'')
             (watch (scan demo_env (demo_discovery [''/r'']))))
     = [SkillDiscovered (demo_skill ''/r''), SkillUpdated renamed_skill None]"
  "watcher (deliver renamed_env (Change ''/r/foo/SKILL.md'')
             (watch (scan demo_env (demo_discovery [''/r''])))) \<noteq> None"
proof -
  let ?st1 = "watch (scan demo_env (demo_discovery [''/r'']))"
  have s1: "skills ?st1 = [(''foo'', demo_skill ''/r'')]"
    and e1: "emitted ?st1 = [SkillDiscovered (demo_skill ''/r'')]"
    and w1: "watcher ?st1 \<noteq> None"
    by (simp_all add: watch_keeps demo_discovery_scan)
  have n: "skill_name renamed_skill = ''bar''" by (simp add: renamed_skill_def)
  have d: "deliver renamed_env (Change ''/r/foo/SKILL.md'') ?st1 =
      emit (SkillUpdated renamed_skill None)
        (?st1 \<lparr> skills := [(''foo'', demo_skill ''/r''), (''bar'', renamed_skill)] \<rparr>)"
    unfolding deliver_change [OF w1]
    by (simp add: on_change_def renamed_discover n s1 map_get_def Let_def)
  show "skills (deliver renamed_env (Change ''/r/foo/SKILL.md'') ?st1)
     = [(''foo'', demo_skill ''/r''), (''bar'', renamed_skill)]"
    unfolding d by simp
  show "emitted (deliver renamed_env (Change ''/r/foo/SKILL.md'') ?st1)
     = [SkillDiscovered (demo_skill ''/r''), SkillUpdated renamed_skill None]"
    unfolding d by (simp add: e1)
  show "watcher (deliver renamed_env (Change ''/r/foo/SKILL.md'') ?st1) \<noteq> None"
    unfolding d using w1 by simp
qed

lemma renamed_reachable:
  "reachable (deliver renamed_env (Change ''/r/foo/SKILL.md'')
                (watch (scan demo_env (demo_discovery [''/r'']))))"
  unfolding demo_discovery_def
  by (intro reachable.deliver reachable.watch reachable.scan reachable.init)

text \<open>
  C8 as stated fails after a rename. The manifest of \<open>foo\<close> is edited and now names the
  skill \<open>bar\<close>: the change handler files the record under \<open>bar\<close> and leaves the one
  under \<open>foo\<close>, so two records have the same manifest path. When the file is deleted,
  the loop removes the record \<open>foo\<close> and ends; the record \<open>bar\<close>, whose manifest path is
  the deleted file, stays in the registry.
\<close>

theorem unlink_leaves_renamed_record:
  "reachable (deliver renamed_env (Change ''/r/foo/SKILL.md'')
                (watch (scan demo_env (demo_discovery [''/r'']))))
   \<and> getSkill (deliver renamed_env (Unlink ''/r/foo/SKILL.md'')
                 (deliver renamed_env (Change ''/r/foo/SKILL.md'')
                    (watch (scan demo_env (demo_discovery [''/r''])))))
        ''bar'' = Some renamed_skill
   \<and> skillMdPath renamed_skill = ''/r/foo/SKILL.md''"
proof -
  let ?st2 = "deliver renamed_env (Change ''/r/foo/SKILL.md'')
                (watch (scan demo_env (demo_discovery [''/r''])))"
  have m: "skillMdPath (demo_skill ''/r'') = ''/r/foo/SKILL.md''" by (simp add: demo_skill_def)
  have "deliver renamed_env (Unlink ''/r/foo/SKILL.md'') ?st2 =
      emit (SkillRemoved ''foo'' (path_dirname ''/r/foo/SKILL.md''))
        (?st2 \<lparr> skills := map_delete (skills ?st2) ''foo'' \<rparr>)"
    unfolding deliver_unlink [OF renamed_state(3)]
    by (simp add: on_unlink_def renamed_state(1) m)
  then have "getSkill (deliver renamed_env (Unlink ''/r/foo/SKILL.md'') ?st2) ''bar''
      = Some renamed_skill"
    by (simp add: getSkill_def renamed_state(1) map_delete_def map_get_def)
  moreover have "skillMdPath renamed_skill = ''/r/foo/SKILL.md''"
    by (simp add: renamed_skill_def)
  ultimately show ?thesis using renamed_reachable by blast
qed

theorem unlink_removes_record_witness:
  "emitted (deliver renamed_env (Unlink ''/r/foo/SKILL.md'')
             (deliver renamed_env (Change ''/r/foo/SKILL.md'')
                (watch (scan demo_env (demo_discovery [''/r''])))))
     = [SkillDiscovered (demo_skill ''/r''), SkillUpdated renamed_skill None,
        SkillRemoved ''foo'' ''/r/foo'']
   \<and> getSkill (deliver renamed_env (Unlink ''/r/foo/SKILL.md'')
                 (deliver renamed_env (Change ''/r/foo/SKILL.md'')
                    (watch (scan demo_env (demo_discovery [''/r''])))))
        ''foo'' = None"
proof -
  let ?st2 = "deliver renamed_env (Change ''/r/foo/SKILL.md'')
                (watch (scan demo_env (demo_discovery [''/r''])))"
  have h3: "skills ?st2 = [] @ (''foo'', demo_skill ''/r'') # [(''bar'', renamed_skill)]"
    by (simp add: renamed_state(1))
  have h4: "skillMdPath (demo_skill ''/r'') = ''/r/foo/SKILL.md''"
    by (simp add: demo_skill_def)
  have h5: "list_all (\<lambda>e. skillMdPath (snd e) \<noteq> ''/r/foo/SKILL.md'') []" by simp
  have sp: "skill_path (demo_skill ''/r'') = ''/r/foo''" by (simp add: demo_skill_def)
  from unlink_removes_record [OF renamed_reachable renamed_state(3) h3 h4 h5, of renamed_env]
  show ?thesis unfolding renamed_state(2) sp by simp
qed

subsection \<open>Events of a scan\<close>

lemma scanEntry_cases:
  "scanEntry env sp e st = st
   \<or> (\<exists>err. scanEntry env sp e st = emit (ErrorEvent err) st)
   \<or> (\<exists>skill. scanEntry env sp e st =
         emit (SkillDiscovered skill) (st \<lparr> skills := map_set (skills st) (skill_name skill) skill \<rparr>))"
proof (cases "snd e \<and> access env (path_join [sp, fst e, ''SKILL.md''])")
  case False
  then show ?thesis by (auto simp: scanEntry_def Let_def)
next
  case True
  show ?thesis
  proof (cases "parseSkillFile env (path_join [sp, fst e, ''SKILL.md''])")
    case (Inl err)
    then have "scanEntry env sp e st = emit (ErrorEvent err) st"
      using True by (simp add: scanEntry_def discoverSkillFromPath_def Let_def)
    then show ?thesis by blast
  next
    case (Inr p)
    obtain skill where d:
      "discoverSkillFromPath env (path_join [sp, fst e, ''SKILL.md'']) st = (Some skill, st)"
      using Inr by (simp add: discoverSkillFromPath_def Let_def)
    show ?thesis
    proof (cases "skill_name skill = []")
      case True
      then have "scanEntry env sp e st = st"
        using d by (simp add: scanEntry_def Let_def)
      then show ?thesis by blast
    next
      case False
      then have "scanEntry env sp e st =
         emit (SkillDiscovered skill) (st \<lparr> skills := map_set (skills st) (skill_name skill) skill \<rparr>)"
        using d True by (simp add: scanEntry_def Let_def)
      then show ?thesis by blast
    qed
  qed
qed

lemma scanEntry_events:
  "\<exists>evs. emitted (scanEntry env sp e st) = emitted st @ evs \<and> list_all scan_event evs"
  using scanEntry_cases [of env sp e st] by (auto simp: emit_def)

lemma fold_events:
  assumes "\<And>x s. \<exists>evs. emitted (f x s) = emitted s @ evs \<and> list_all scan_event evs"
  shows "\<exists>evs. emitted (fold f xs st) = emitted st @ evs \<and> list_all scan_event evs"
proof (induction xs arbitrary: st)
  case Nil
  show ?case by simp
next
  case (Cons x xs)
  obtain e1 where e1: "emitted (f x st) = emitted st @ e1" "list_all scan_event e1"
    using assms by blast
  obtain e2 where e2: "emitted (fold f xs (f x st)) = emitted (f x st) @ e2" "list_all scan_event e2"
    using Cons.IH by blast
  have "emitted (fold f (x # xs) st) = emitted st @ (e1 @ e2)" "list_all scan_event (e1 @ e2)"
    using e1 e2 by simp_all
  then show ?case by blast
qed

lemma scanPath_events:
  "\<exists>evs. emitted (scanPath env sp st) = emitted st @ evs \<and> list_all scan_event evs"
proof (cases "directoryExists env sp")
  case False
  then show ?thesis by (simp add: scanPath_def)
next
  case True
  show ?thesis
  proof (cases "readdir env sp")
    case (Inl err)
    then show ?thesis using True by (simp add: scanPath_def)
  next
    case (Inr entries)
    then show ?thesis
      using True fold_events [of "scanEntry env sp", OF scanEntry_events] by (simp add: scanPath_def)
  qed
qed

lemma scan_events:
  "\<exists>evs. emitted (scan env st) = emitted st @ evs \<and> list_all scan_event evs"
  unfolding scan_def by (rule fold_events) (rule scanPath_events)

text \<open>
  C9. A scan emits discovered and error events only, never an updated event. Every
  candidate it inserts is announced as discovered, in every state, so also when the name
  is already in the registry and the record replaces an older one; and a step of the scan
  that changes the registry is an insertion announced as discovered. The updated event,
  with the previous record, comes from the handlers of the watcher: from \<open>add\<close> when the
  name was present, from \<open>change\<close> always.
\<close>

theorem scan_emits_discovered:
  "(\<exists>evs. emitted (scan env st) = emitted st @ evs \<and> list_all scan_event evs)
   \<and> (snd entry \<and> access env (path_join [sp, fst entry, ''SKILL.md''])
        \<and> discoverSkillFromPath env (path_join [sp, fst entry, ''SKILL.md'']) st = (Some skill, st)
        \<and> skill_name skill \<noteq> []
       \<longrightarrow> scanEntry env sp entry st =
             st \<lparr> skills := map_set (skills st) (skill_name skill) skill,
                  emitted := emitted st @ [SkillDiscovered skill] \<rparr>)
   \<and> (skills (scanEntry env sp entry st) \<noteq> skills st
       \<longrightarrow> (\<exists>sk. skills (scanEntry env sp entry st) = map_set (skills st) (skill_name sk) sk
                \<and> emitted (scanEntry env sp entry st) = emitted st @ [SkillDiscovered sk]))
   \<and> (discoverSkillFromPath env filePath st = (Some skill, st) \<and> skill_name skill \<noteq> []
        \<and> map_get (skills st) (skill_name skill) = Some prev
       \<longrightarrow> emitted (on_add env filePath st) = emitted st @ [SkillUpdated skill (Some prev)])
   \<and> (discoverSkillFromPath env filePath st = (Some skill, st) \<and> skill_name skill \<noteq> []
       \<longrightarrow> emitted (on_change env filePath st) =
             emitted st @ [SkillUpdated skill (map_get (skills st) (skill_name skill))])"
proof -
  have 1: "\<exists>evs. emitted (scan env st) = emitted st @ evs \<and> list_all scan_event evs"
    by (rule scan_events)
  have 2: "snd entry \<and> access env (path_join [sp, fst entry, ''SKILL.md''])
        \<and> discoverSkillFromPath env (path_join [sp, fst entry, ''SKILL.md'']) st = (Some skill, st)
        \<and> skill_name skill \<noteq> []
       \<longrightarrow> scanEntry env sp entry st =
             st \<lparr> skills := map_set (skills st) (skill_name skill) skill,
                  emitted := emitted st @ [SkillDiscovered skill] \<rparr>"
    by (simp add: scanEntry_def Let_def emit_def)
  have 3: "skills (scanEntry env sp entry st) \<noteq> skills st
       \<longrightarrow> (\<exists>sk. skills (scanEntry env sp entry st) = map_set (skills st) (skill_name sk) sk
                \<and> emitted (scanEntry env sp entry st) = emitted st @ [SkillDiscovered sk])"
    using scanEntry_cases [of env sp entry st] by auto
  have 4: "discoverSkillFromPath env filePath st = (Some skill, st) \<and> skill_name skill \<noteq> []
        \<and> map_get (skills st) (skill_name skill) = Some prev
       \<longrightarrow> emitted (on_add env filePath st) = emitted st @ [SkillUpdated skill (Some prev)]"
    by (simp add: on_add_def Let_def)
  have 5: "discoverSkillFromPath env filePath st = (Some skill, st) \<and> skill_name skill \<noteq> []
       \<longrightarrow> emitted (on_change env filePath st) =
             emitted st @ [SkillUpdated skill (map_get (skills st) (skill_name skill))]"
    by (simp add: on_change_def Let_def)
  from 1 2 3 4 5 show ?thesis by blast
qed

theorem scan_emits_discovered_witness:
  "emitted (scan demo_env (demo_discovery [''/r'', ''/s'']))
     = [SkillDiscovered (demo_skill ''/r''), SkillDiscovered (demo_skill ''/s'')]
   \<and> getSkill (scan demo_env (demo_discovery [''/r'', ''/s''])) ''foo'' = Some (demo_skill ''/s'')"
proof -
  define st0 where "st0 = demo_discovery [''/r'', ''/s'']"
  define st1 where "st1 = scanPath demo_env ''/r'' st0"
  have d: "st0 = new_discovery (demo_defaults @ [''/r'', ''/s''])"
    unfolding st0_def by (rule demo_discovery_state) simp
  have st1: "st1 = st0 \<lparr> skills := [(''foo'', demo_skill ''/r'')],
                          emitted := [SkillDiscovered (demo_skill ''/r'')] \<rparr>"
    unfolding st1_def by (simp add: demo_scanPath_r d new_discovery_def emit_def)
  have h: "snd (''foo'', True) \<and> access demo_env (path_join [''/s'', fst (''foo'', True), ''SKILL.md''])
        \<and> discoverSkillFromPath demo_env (path_join [''/s'', fst (''foo'', True), ''SKILL.md'']) st1
             = (Some (demo_skill ''/s''), st1)
        \<and> skill_name (demo_skill ''/s'') \<noteq> []"
    by (simp add: demo_join demo_discover) (simp add: demo_env_def demo_skill_def)
  have step: "scanEntry demo_env ''/s'' (''foo'', True) st1 =
             st1 \<lparr> skills := map_set (skills st1) (skill_name (demo_skill ''/s'')) (demo_skill ''/s''),
                   emitted := emitted st1 @ [SkillDiscovered (demo_skill ''/s'')] \<rparr>"
    using scan_emits_discovered [of demo_env st1 "(''foo'', True)" "''/s''" "demo_skill ''/s''"] h
    by blast
  have nm: "skill_name (demo_skill ''/s'') = ''foo''" by (simp add: demo_skill_def)
  have "scan demo_env st0 = scanPath demo_env ''/s'' st1"
    by (simp add: scan_def st1_def d new_discovery_def demo_scan_defaults)
  also have "\<dots> = fold (scanEntry demo_env ''/s'') [(''foo'', True), (''notes.txt'', False)] st1"
    by (simp add: scanPath_def demo_env_def)
  also have "\<dots> = scanEntry demo_env ''/s'' (''foo'', True) st1"
    by (simp add: demo_scanEntry_file)
  finally have "scan demo_env st0 =
     st0 \<lparr> skills := [(''foo'', demo_skill ''/s'')],
           emitted := [SkillDiscovered (demo_skill ''/r''), SkillDiscovered (demo_skill ''/s'')] \<rparr>"
    unfolding step nm unfolding st1 by simp
  then show ?thesis unfolding st0_def [symmetric] by (simp add: getSkill_def map_get_def)
qed

subsection \<open>Code blocks by index\<close>

lemma code_uri_param:
  assumes "parseSkillUri uri = Some u" "uri_type u = Code"
  shows "\<exists>p. param u = Some p \<and> p \<noteq> []" and "uri \<noteq> ''loadout://help''"
proof -
  have sw: "startsWith uri ''loadout://''" and sh: "spec_uri_shape (uri_segments uri) = Some u"
    using assms(1) parseSkillUri_spec [of uri] by (auto split: if_splits)
  obtain n t rest where segs: "uri_segments uri = n # t # rest"
    using sh assms(2) by (cases "uri_segments uri" rule: spec_uri_shape.cases) auto
  have "t = ''code''"
    using sh assms(2) segs by (auto split: if_splits list.splits)
  then obtain p where rest: "rest = [p]" and pu: "param u = Some p"
    using sh segs by (auto split: if_splits list.splits)
  have "p \<in> set (uri_segments uri)" using segs rest by simp
  then have "p \<noteq> []" using uri_segments_plain by blast
  then show "\<exists>p. param u = Some p \<and> p \<noteq> []" using pu by blast
  show "uri \<noteq> ''loadout://help''"
  proof
    assume "uri = ''loadout://help''"
    then have "uri_segments uri = [''help'']" by (simp add: uri_segments_def)
    then show False using segs by simp
  qed
qed

text \<open>
  C6. For a registered skill with a parsed document of \<open>n\<close> code blocks, reading
  \<open>code/{param}\<close> fails with the error that names the range \<open>0-(n-1)\<close> whenever
  \<open>parseInt\<close> does not read from the parameter an integer in \<open>[0, n)\<close>; when it does,
  the answer is the content of that block. With two code blocks, \<open>code/5\<close> gives the
  error naming \<open>0-1\<close>.
\<close>

theorem readResource_code_index:
  assumes uri: "parseSkillUri uri = Some u"
    and ty: "uri_type u = Code"
    and par: "param u = Some p"
    and reg: "getSkill discovery (uri_name u) = Some skill"
    and doc: "parsed skill = Some doc"
  shows "(\<not> (\<exists>i. parseInt p = Some i \<and> 0 \<le> i \<and> i < int (length (codeBlocks doc)))
          \<longrightarrow> readResource readFile helpContent stringify discovery uri =
                Inl (''Invalid code block index: '' @ p @ ''. Valid range: 0-'' @
                     show_int (int (length (codeBlocks doc)) - 1)))
       \<and> (\<forall>i. parseInt p = Some i \<and> 0 \<le> i \<and> i < int (length (codeBlocks doc))
          \<longrightarrow> (\<exists>c. readResource readFile helpContent stringify discovery uri = Inr [c]
                    \<and> rc_text c = content (codeBlocks doc ! nat i)))"
proof -
  have ne: "p \<noteq> []" and nh: "uri \<noteq> ''loadout://help''"
    using code_uri_param [OF uri ty] par by auto
  show ?thesis
    using uri ty par reg doc ne nh
    by (auto simp: readResource_def Let_def)
qed

theorem readResource_code_index_witness:
  "readResource (\<lambda>p. Inl ''ENOENT'') ''help'' (\<lambda>m. ''{}'')
     (scan demo_env (demo_discovery [''/r''])) ''loadout://foo/code/5''
   = Inl ''Invalid code block index: 5. Valid range: 0-1''"
proof -
  let ?u = "\<lparr> uri_name = ''foo'', uri_type = Code, param = Some ''5'' \<rparr>"
  let ?doc = "demo_parsed \<lparr> files := demo_files \<rparr>"
  have h1: "parseSkillUri ''loadout://foo/code/5'' = Some ?u"
    by (simp add: parseSkillUri_spec startsWith_def uri_segments_def)
  have h2: "uri_type ?u = Code" by simp
  have h3: "param ?u = Some ''5''" by simp
  have h4: "getSkill (scan demo_env (demo_discovery [''/r''])) (uri_name ?u) = Some (demo_skill ''/r'')"
    by (simp add: demo_discovery_scan getSkill_def map_get_def)
  have h5: "parsed (demo_skill ''/r'') = Some ?doc"
    by (simp add: demo_skill_def)
  have len: "length (codeBlocks ?doc) = 2" by (simp add: demo_parsed_def)
  have pi: "parseInt ''5'' = Some 5"
    by (simp add: parseInt_def is_ws_def is_digit_def digit_value_def)
  have out: "\<not> (\<exists>i. parseInt ''5'' = Some i \<and> 0 \<le> i \<and> i < int (length (codeBlocks ?doc)))"
    unfolding pi len by simp
  have sh: "show_int (int (length (codeBlocks ?doc)) - 1) = ''1''"
    unfolding len by (simp add: show_int_def)
  from readResource_code_index [OF h1 h2 h3 h4 h5, of "\<lambda>p. Inl ''ENOENT''" "''help''" "\<lambda>m. ''{}''"] out
  have "readResource (\<lambda>p. Inl ''ENOENT'') ''help'' (\<lambda>m. ''{}'')
     (scan demo_env (demo_discovery [''/r''])) ''loadout://foo/code/5''
   = Inl (''Invalid code block index: '' @ ''5'' @ ''. Valid range: 0-'' @
                     show_int (int (length (codeBlocks ?doc)) - 1))"
    by blast
  then show ?thesis unfolding sh by simp
qed

subsection \<open>Script paths\<close>

lemma startsWith_includes: "startsWith s sub \<Longrightarrow> js_includes s sub"
  by (cases s) (auto simp: startsWith_def)

lemma norm_segments_keeps_parent:
  "res \<noteq> [] \<Longrightarrow> hd res = ''..'' \<Longrightarrow>
   norm_segments True segs res \<noteq> [] \<and> hd (norm_segments True segs res) = ''..''"
proof (induction segs arbitrary: res)
  case Nil
  then show ?case by simp
next
  case (Cons seg segs)
  have pop: "last res \<noteq> ''..'' \<Longrightarrow> butlast res \<noteq> [] \<and> hd (butlast res) = ''..''"
  proof -
    assume l: "last res \<noteq> ''..''"
    obtain x xs where r: "res = x # xs" using Cons.prems(1) by (cases res) auto
    then have "xs \<noteq> []" using l Cons.prems(2) by auto
    then show ?thesis using r Cons.prems(2) by simp
  qed
  have app: "\<And>s. res @ [s] \<noteq> [] \<and> hd (res @ [s]) = ''..''"
    using Cons.prems by simp
  show ?case
    using Cons.IH [of res] Cons.IH [of "butlast res"] Cons.IH [of "res @ [seg]"]
      Cons.IH [of "res @ [''..'']"] Cons.prems pop app
    by (simp del: One_nat_def)
qed

lemma join_with_hd: "xs \<noteq> [] \<Longrightarrow> startsWith (join_with sep xs) (hd xs)"
  by (cases xs; cases "tl xs") (auto simp: startsWith_def)

lemma join_with_empty: "join_with sep xs = [] \<Longrightarrow> xs \<noteq> [] \<Longrightarrow> hd xs = []"
  by (cases xs; cases "tl xs") auto

lemma startsWith_append: "startsWith s p \<Longrightarrow> startsWith (s @ t) p"
proof -
  assume "startsWith s p"
  then have t: "take (length p) s = p" by (simp add: startsWith_def)
  have "length (take (length p) s) = min (length p) (length s)" by simp
  then have "length p \<le> length s" unfolding t by simp
  then show ?thesis using t by (simp add: startsWith_def)
qed

lemma js_includes_append: "js_includes s sub \<Longrightarrow> js_includes (s @ t) sub"
proof (induction s)
  case Nil
  then show ?case by (cases t) (auto simp: startsWith_def)
next
  case (Cons x xs)
  then show ?case using startsWith_append [of "x # xs" sub t] by auto
qed

lemma normalize_leading_parent:
  assumes "startsWith scriptName ''../''"
  shows "js_includes (path_normalize scriptName) ''..''"
proof -
  obtain rest where s: "scriptName = ''../'' @ rest"
    using assms by (metis append_take_drop_id startsWith_def)
  have sp: "split_on CHR ''/'' scriptName = ''..'' # split_on CHR ''/'' rest"
    unfolding s by simp
  define N where "N = norm_segments True (split_on CHR ''/'' scriptName) []"
  have "N = norm_segments True (split_on CHR ''/'' rest) [''..'']"
    unfolding N_def sp by simp
  then have N: "N \<noteq> []" "hd N = ''..''"
    using norm_segments_keeps_parent [of "[''..'']" "split_on CHR ''/'' rest"] by simp_all
  have q: "startsWith (normalizeString scriptName True) ''..''"
    using join_with_hd [OF N(1), of "''/''"] N(2) by (simp add: normalizeString_def N_def)
  then have qne: "normalizeString scriptName True \<noteq> []"
    by (auto simp: startsWith_def)
  have "startsWith (path_normalize scriptName) ''..''"
    using q qne s by (auto simp: path_normalize_def Let_def intro: startsWith_append)
  then show ?thesis by (rule startsWith_includes)
qed

lemma normalize_absolute:
  assumes "startsWith scriptName ''/''"
  shows "startsWith (path_normalize scriptName) ''/''"
proof -
  have "scriptName \<noteq> []" "hd scriptName = CHR ''/''"
    using assms by (cases scriptName; simp add: startsWith_def)+
  then show ?thesis by (simp add: path_normalize_def Let_def startsWith_def)
qed

lemma basename_no_slash: "CHR ''/'' \<notin> set (path_basename p)"
proof -
  have "\<forall>c \<in> set (takeWhile (\<lambda>c. c \<noteq> CHR ''/'') xs). c \<noteq> CHR ''/''" for xs :: string
    by (auto dest: set_takeWhileD)
  then show ?thesis unfolding path_basename_def by auto
qed

lemma extname_basename:
  assumes "path_extname p \<noteq> []"
  shows "path_basename p \<noteq> []" "path_basename p \<noteq> ''.''" "path_basename p \<noteq> ''..''"
proof -
  have d: "CHR ''.'' \<in> set (path_basename p)"
    using assms by (auto simp: path_extname_def Let_def split: if_splits)
  then show "path_basename p \<noteq> []" by auto
  show "path_basename p \<noteq> ''..''"
    using assms by (auto simp: path_extname_def Let_def split: if_splits)
  show "path_basename p \<noteq> ''.''"
  proof
    assume "path_basename p = ''.''"
    then have "path_extname p = []" by (simp add: path_extname_def Let_def)
    with assms show False by simp
  qed
qed

lemma toLowerCase_empty: "js_toLowerCase s = [] \<longleftrightarrow> s = []"
  by (simp add: js_toLowerCase_def)

lemma resolve_acc_acc:
  "resolve_acc ps acc = (fst (resolve_acc ps []) @ acc, snd (resolve_acc ps []))"
proof (induction ps arbitrary: acc)
  case Nil
  show ?case by simp
next
  case (Cons p ps)
  show ?case
    using Cons.IH [of "p @ ''/'' @ acc"] Cons.IH [of "p @ ''/''"] Cons.IH [of acc]
    by (simp del: One_nat_def)
qed

lemma split_on_append_sep: "split_on c (xs @ c # ys) = split_on c xs @ split_on c ys"
proof (induction xs)
  case Nil
  show ?case by simp
next
  case (Cons x xs)
  obtain y yy where sp: "split_on c xs = y # yy"
    using split_on_nonempty [of c xs] by (cases "split_on c xs") auto
  show ?case using Cons sp by simp
qed

lemma split_on_plain: "c \<notin> set b \<Longrightarrow> split_on c b = [b]"
  by (induction b) auto

lemma norm_segments_append:
  "norm_segments a (xs @ ys) res = norm_segments a ys (norm_segments a xs res)"
  by (induction xs arbitrary: res) auto

lemma norm_segments_nonempty:
  "list_all (\<lambda>s. s \<noteq> []) res \<Longrightarrow> list_all (\<lambda>s. s \<noteq> []) (norm_segments a segs res)"
proof (induction a segs res rule: norm_segments.induct)
  case (1 a res)
  then show ?case by simp
next
  case (2 a seg rest res)
  have b: "list_all (\<lambda>s. s \<noteq> []) (butlast res)"
    using "2.prems" by (auto simp: list_all_iff dest: in_set_butlastD)
  have c: "seg \<noteq> [] \<Longrightarrow> list_all (\<lambda>s. s \<noteq> []) (res @ [seg])"
    using "2.prems" by simp
  have d: "list_all (\<lambda>s. s \<noteq> []) (res @ [''..''])"
    using "2.prems" by simp
  consider (skip) "seg = [] \<or> seg = ''.''"
    | (pop) "\<not> (seg = [] \<or> seg = ''.'')" "seg = ''..''" "res \<noteq> [] \<and> last res \<noteq> ''..''"
    | (up) "\<not> (seg = [] \<or> seg = ''.'')" "seg = ''..''" "\<not> (res \<noteq> [] \<and> last res \<noteq> ''..'')" "a"
    | (drop) "\<not> (seg = [] \<or> seg = ''.'')" "seg = ''..''" "\<not> (res \<noteq> [] \<and> last res \<noteq> ''..'')" "\<not> a"
    | (push) "\<not> (seg = [] \<or> seg = ''.'')" "seg \<noteq> ''..''"
    by blast
  then show ?case
  proof cases
    case skip
    then show ?thesis using "2.IH"(1) "2.prems" by simp
  next
    case pop
    then show ?thesis using "2.IH"(2) b by simp
  next
    case up
    then show ?thesis using "2.IH"(3) d by auto
  next
    case drop
    then show ?thesis using "2.IH"(4) "2.prems" by auto
  next
    case push
    then show ?thesis using "2.IH"(5) c by simp
  qed
qed

lemma join_with_snoc:
  "join_with sep (xs @ [b]) = (if xs = [] then b else join_with sep xs @ sep @ b)"
  by (induction sep xs rule: join_with.induct) auto

lemma resolve_child:
  assumes wd: "wd \<noteq> []" "hd wd = CHR ''/''"
    and S: "S \<noteq> []"
    and b: "b \<noteq> []" "CHR ''/'' \<notin> set b" "b \<noteq> ''.''" "b \<noteq> ''..''"
  shows "path_resolve wd [S, b] =
           (if path_resolve wd [S] = ''/'' then [] else path_resolve wd [S]) @ ''/'' @ b"
proof -
  define R0 where "R0 = (if hd S = CHR ''/'' then S else wd @ ''/'' @ S)"
  have r1: "resolve_acc [S, wd] [] = (R0 @ ''/'', True)"
    using wd S by (simp add: R0_def)
  have hb: "hd b \<noteq> CHR ''/''" using b(1,2) by (cases b) auto
  have "resolve_acc [b, S, wd] [] = resolve_acc [S, wd] (b @ ''/'')"
    using b(1) hb by simp
  also have "\<dots> = (R0 @ ''/'' @ b @ ''/'', True)"
    using resolve_acc_acc [of "[S, wd]" "b @ ''/''"] r1 by simp
  finally have r2: "resolve_acc [b, S, wd] [] = (R0 @ ''/'' @ b @ ''/'', True)" .
  define N where "N = norm_segments False (split_on CHR ''/'' R0) []"
  have n1: "norm_segments False (split_on CHR ''/'' (R0 @ ''/'')) [] = N"
    using split_on_append_sep [of "CHR ''/''" R0 "[]"]
    by (simp add: N_def norm_segments_append)
  have "split_on CHR ''/'' (R0 @ ''/'' @ b @ ''/'') =
          split_on CHR ''/'' R0 @ split_on CHR ''/'' (b @ ''/'')"
    using split_on_append_sep [of "CHR ''/''" R0 "b @ ''/''"] by simp
  also have "split_on CHR ''/'' (b @ ''/'') = [b, []]"
    using split_on_append_sep [of "CHR ''/''" b "[]"] split_on_plain [OF b(2)] by simp
  finally have n2: "norm_segments False (split_on CHR ''/'' (R0 @ ''/'' @ b @ ''/'')) [] = N @ [b]"
    using b by (simp add: N_def norm_segments_append)
  have ne: "list_all (\<lambda>s. s \<noteq> []) N"
    unfolding N_def by (rule norm_segments_nonempty) simp
  have j: "join_with ''/'' N = [] \<longleftrightarrow> N = []"
    using join_with_empty [of "''/''" N] ne by (cases N) auto
  have p1: "path_resolve wd [S] = ''/'' @ join_with ''/'' N"
    using r1 n1 by (simp add: path_resolve_def normalizeString_def)
  have p2: "path_resolve wd [S, b] = ''/'' @ join_with ''/'' (N @ [b])"
    using r2 n2 by (simp add: path_resolve_def normalizeString_def)
  show ?thesis
    unfolding p1 p2 using j by (simp add: join_with_snoc)
qed

lemma path_join_nonempty: "path_join args \<noteq> []"
  by (auto simp: path_join_def path_normalize_def Let_def)

subsection \<open>Validation of script requests\<close>

lemma validate_traversal:
  assumes "startsWith script ''/'' \<or> startsWith script ''../''
           \<or> js_includes (path_normalize script) ''..''
           \<or> js_includes (path_normalize script) [CHR 0x5C]"
  shows "validateScriptPath wd script skillPath =
           Inl ''Invalid script path: path traversal not allowed''"
proof -
  have "js_includes (path_normalize script) ''..'' \<or> startsWith (path_normalize script) ''/''
        \<or> js_includes (path_normalize script) [CHR 0x5C]"
    using assms normalize_absolute [of script] normalize_leading_parent [of script] by blast
  then show ?thesis by (simp add: validateScriptPath_def Let_def)
qed

lemma validate_accepts:
  assumes v: "validateScriptPath wd script skillPath = Inr fullPath"
    and wd: "wd \<noteq> []" "hd wd = CHR ''/''"
  shows "CHR ''/'' \<notin> set (path_basename script)"
    and "path_basename script \<noteq> []"
    and "fullPath =
          (if path_resolve wd [path_join [skillPath, ''scripts'']] = ''/'' then []
           else path_resolve wd [path_join [skillPath, ''scripts'']]) @ ''/'' @ path_basename script"
proof -
  have ext: "js_toLowerCase (path_extname script) \<in> set ALLOWED_EXTENSIONS"
    and fp: "fullPath = path_resolve wd [path_join [skillPath, ''scripts''], path_basename script]"
    using v by (auto simp: validateScriptPath_def Let_def split: if_splits)
  have "js_toLowerCase (path_extname script) \<noteq> []"
    using ext by (auto simp: ALLOWED_EXTENSIONS_def)
  then have "path_extname script \<noteq> []" by (simp add: toLowerCase_empty)
  note b = extname_basename [OF this]
  show "CHR ''/'' \<notin> set (path_basename script)" by (rule basename_no_slash)
  show "path_basename script \<noteq> []" by (rule b(1))
  show "fullPath =
          (if path_resolve wd [path_join [skillPath, ''scripts'']] = ''/'' then []
           else path_resolve wd [path_join [skillPath, ''scripts'']]) @ ''/'' @ path_basename script"
    unfolding fp
    by (rule resolve_child [OF wd path_join_nonempty b(1) basename_no_slash b(2) b(3)])
qed

lemma getScriptCommand_args: "scriptPath \<in> set (snd (getScriptCommand scriptPath))"
  by (simp add: getScriptCommand_def Let_def)

lemma run_spawns:
  assumes "getSkill discovery skillName = Some skill"
    and "validateScriptPath wd script (skill_path skill) = Inr fullPath"
    and "c \<in> set (snd (run_skill_script True t acc spawn wd discovery
                          (ParseSuccess skillName script args)))"
  shows "fullPath \<in> set (spawn_args c) \<and> cwd c = skill_path skill"
proof (cases "acc fullPath")
  case False
  then show ?thesis using assms by (simp add: run_skill_script_def)
next
  case True
  obtain cmd cmdArgs where g: "getScriptCommand fullPath = (cmd, cmdArgs)"
    by (cases "getScriptCommand fullPath")
  have "fullPath \<in> set cmdArgs" using getScriptCommand_args [of fullPath] g by simp
  then show ?thesis
    using assms True g by (simp add: run_skill_script_def executeScript_def Let_def)
qed

text \<open>
  C1 (as the code has it). For a request on a registered skill: a script name that is an
  absolute path, or starts with a parent-directory segment, or whose normalised form
  holds \<open>..\<close> or a backslash, is rejected with the path error, and so is every other
  request that fails validation, each before any process is spawned. A name with a
  slash is not rejected for that: the last segment of the name is taken. A request that
  passes validation resolves to the file of that segment directly inside the \<open>scripts\<close>
  directory of the skill, and that file is what a spawned process is given.
\<close>

theorem run_skill_script_validation:
  assumes reg: "getSkill discovery skillName = Some skill"
    and wd: "wd \<noteq> []" "hd wd = CHR ''/''"
  shows
    "(startsWith script ''/'' \<or> startsWith script ''../''
        \<or> js_includes (path_normalize script) ''..''
        \<or> js_includes (path_normalize script) [CHR 0x5C]
      \<longrightarrow> run_skill_script True t acc spawn wd discovery (ParseSuccess skillName script args) =
            (Some (errorResult ''Invalid script path: path traversal not allowed''), []))
   \<and> (\<forall>err. validateScriptPath wd script (skill_path skill) = Inl err
      \<longrightarrow> run_skill_script True t acc spawn wd discovery (ParseSuccess skillName script args) =
            (Some (errorResult err), []))
   \<and> (\<forall>fullPath. validateScriptPath wd script (skill_path skill) = Inr fullPath
      \<longrightarrow> CHR ''/'' \<notin> set (path_basename script) \<and> path_basename script \<noteq> []
          \<and> fullPath =
              (if path_resolve wd [path_join [skill_path skill, ''scripts'']] = ''/'' then []
               else path_resolve wd [path_join [skill_path skill, ''scripts'']])
              @ ''/'' @ path_basename script
          \<and> (\<forall>c \<in> set (snd (run_skill_script True t acc spawn wd discovery
                                  (ParseSuccess skillName script args))).
                fullPath \<in> set (spawn_args c) \<and> cwd c = skill_path skill))"
proof -
  have 2: "\<forall>err. validateScriptPath wd script (skill_path skill) = Inl err
      \<longrightarrow> run_skill_script True t acc spawn wd discovery (ParseSuccess skillName script args) =
            (Some (errorResult err), [])"
    using reg by (simp add: run_skill_script_def)
  have 1: "startsWith script ''/'' \<or> startsWith script ''../''
        \<or> js_includes (path_normalize script) ''..''
        \<or> js_includes (path_normalize script) [CHR 0x5C]
      \<longrightarrow> run_skill_script True t acc spawn wd discovery (ParseSuccess skillName script args) =
            (Some (errorResult ''Invalid script path: path traversal not allowed''), [])"
    using validate_traversal [of script wd "skill_path skill"] 2 by blast
  have 3: "\<forall>fullPath. validateScriptPath wd script (skill_path skill) = Inr fullPath
      \<longrightarrow> CHR ''/'' \<notin> set (path_basename script) \<and> path_basename script \<noteq> []
          \<and> fullPath =
              (if path_resolve wd [path_join [skill_path skill, ''scripts'']] = ''/'' then []
               else path_resolve wd [path_join [skill_path skill, ''scripts'']])
              @ ''/'' @ path_basename script
          \<and> (\<forall>c \<in> set (snd (run_skill_script True t acc spawn wd discovery
                                  (ParseSuccess skillName script args))).
                fullPath \<in> set (spawn_args c) \<and> cwd c = skill_path skill)"
    using validate_accepts [OF _ wd, of script "skill_path skill"] run_spawns [OF reg]
    by blast
  from 1 2 3 show ?thesis by blast
qed

lemma demo_validate_nested:
  "validateScriptPath ''/home/u'' ''sub/run.sh'' ''/r/foo'' = Inr ''/r/foo/scripts/run.sh''"
  by code_simp

lemma demo_validate_interior:
  "validateScriptPath ''/home/u'' ''a/../run.sh'' ''/r/foo'' = Inr ''/r/foo/scripts/run.sh''"
  by code_simp

lemma demo_command:
  "getScriptCommand ''/r/foo/scripts/run.sh'' = (''bash'', [''/r/foo/scripts/run.sh''])"
  by code_simp

text \<open>
  C1 as stated fails: the nested name \<open>sub/run.sh\<close> is accepted, and the process is
  spawned on \<open>scripts/run.sh\<close>; a parent-directory segment inside the name, as in
  \<open>a/../run.sh\<close>, is normalised away before the check and accepted too.
\<close>

theorem nested_script_not_rejected:
  "run_skill_script True 30000 (\<lambda>p. True) (\<lambda>c. [Close (Some 0)]) ''/home/u''
     (scan demo_env (demo_discovery [''/r''])) (ParseSuccess ''foo'' ''sub/run.sh'' None)
   = (Some (successResult \<lparr> stdout = [], stderr = [], exitCode = Some 0 \<rparr>),
      [\<lparr> command = ''bash'', spawn_args = [''/r/foo/scripts/run.sh''], cwd = ''/r/foo'',
         spawn_timeout = 30000 \<rparr>])
   \<and> validateScriptPath ''/home/u'' ''a/../run.sh'' ''/r/foo'' = Inr ''/r/foo/scripts/run.sh''"
proof -
  have g: "getSkill (scan demo_env (demo_discovery [''/r''])) ''foo'' = Some (demo_skill ''/r'')"
    by (simp add: demo_discovery_scan getSkill_def map_get_def)
  have p: "skill_path (demo_skill ''/r'') = ''/r/foo''" by (simp add: demo_skill_def)
  have "run_skill_script True 30000 (\<lambda>p. True) (\<lambda>c. [Close (Some 0)]) ''/home/u''
     (scan demo_env (demo_discovery [''/r''])) (ParseSuccess ''foo'' ''sub/run.sh'' None)
   = (Some (successResult \<lparr> stdout = [], stderr = [], exitCode = Some 0 \<rparr>),
      [\<lparr> command = ''bash'', spawn_args = [''/r/foo/scripts/run.sh''], cwd = ''/r/foo'',
         spawn_timeout = 30000 \<rparr>])"
    by (simp add: run_skill_script_def g p demo_validate_nested executeScript_def demo_command
          exec_init_def resolve_def Let_def)
  then show ?thesis using demo_validate_interior by simp
qed

theorem run_skill_script_validation_witness:
  "run_skill_script True 30000 (\<lambda>p. True) (\<lambda>c. [Close (Some 0)]) ''/home/u''
     (scan demo_env (demo_discovery [''/r''])) (ParseSuccess ''foo'' ''../run.sh'' None)
   = (Some (errorResult ''Invalid script path: path traversal not allowed''), [])"
proof -
  have g: "getSkill (scan demo_env (demo_discovery [''/r''])) ''foo'' = Some (demo_skill ''/r'')"
    by (simp add: demo_discovery_scan getSkill_def map_get_def)
  have w: "''/home/u'' \<noteq> []" "hd ''/home/u'' = CHR ''/''" by simp_all
  have s: "startsWith ''../run.sh'' ''../''" by (simp add: startsWith_def)
  from run_skill_script_validation [OF g w, of "''../run.sh''" 30000 "\<lambda>p. True"
      "\<lambda>c. [Close (Some 0)]" None] s
  show ?thesis by blast
qed

subsection \<open>Script execution\<close>

lemma resolved_kept: "resolved st = Some r \<Longrightarrow> resolved (handle st ev) = Some r"
  by (cases ev) (auto simp: resolve_def proc_kill_def Let_def)

lemma resolved_kept_fold: "resolved st = Some r \<Longrightarrow> resolved (foldl handle st evs) = Some r"
  by (induction evs arbitrary: st) (auto simp: resolved_kept)

lemma running_prefix:
  assumes "list_all (\<lambda>ev. \<not> terminal ev) pre"
    and "resolved st = None" "\<not> timer_cleared st"
  shows "resolved (foldl handle st pre) = None
       \<and> \<not> timer_cleared (foldl handle st pre)
       \<and> ex_stdout (foldl handle st pre) = ex_stdout st @ stdout_of pre
       \<and> ex_stderr (foldl handle st pre) = ex_stderr st @ stderr_of pre
       \<and> (killed (foldl handle st pre) \<longleftrightarrow> killed st \<or> list_ex timeout_event pre)"
  using assms
proof (induction pre arbitrary: st)
  case Nil
  then show ?case by simp
next
  case (Cons ev pre)
  have t: "\<not> terminal ev" and rest: "list_all (\<lambda>ev. \<not> terminal ev) pre"
    using Cons.prems(1) by simp_all
  have step: "resolved (handle st ev) = None \<and> \<not> timer_cleared (handle st ev)
      \<and> ex_stdout (handle st ev) @ stdout_of pre = ex_stdout st @ stdout_of (ev # pre)
      \<and> ex_stderr (handle st ev) @ stderr_of pre = ex_stderr st @ stderr_of (ev # pre)
      \<and> (killed (handle st ev) \<longleftrightarrow> killed st \<or> timeout_event ev)"
    using t Cons.prems(2,3) by (cases ev) (auto simp: proc_kill_def)
  show ?case
    using Cons.IH [of "handle st ev", OF rest] step by auto
qed

text \<open>
  What the handlers do once the process closes or fails to spawn: the first such event
  settles the result. After a close the exit code is null and the timeout marker is
  appended when the timeout had fired, and the exit code is the real one, with the
  output unchanged, when it had not; after a spawn error the exit code is null and the
  message is appended. Until then the promise is pending.
\<close>

lemma executeScript_outcomes:
  assumes "list_all (\<lambda>ev. \<not> terminal ev) pre"
  shows "resolved (foldl handle exec_init (pre @ Close code # rest)) =
           Some (if list_ex timeout_event pre
                 then \<lparr> stdout = stdout_of pre,
                        stderr = stderr_of pre @ ''\<newline>[Script execution timed out]'',
                        exitCode = None \<rparr>
                 else \<lparr> stdout = stdout_of pre, stderr = stderr_of pre, exitCode = code \<rparr>)"
    and "resolved (foldl handle exec_init (pre @ SpawnError msg # rest)) =
           Some \<lparr> stdout = stdout_of pre,
                  stderr = stderr_of pre @ ''\<newline>[Script execution error: '' @ msg @ '']'',
                  exitCode = None \<rparr>"
    and "resolved (foldl handle exec_init pre) = None"
proof -
  let ?st = "foldl handle exec_init pre"
  have i: "resolved exec_init = None" "\<not> timer_cleared exec_init"
    by (simp_all add: exec_init_def)
  note p = running_prefix [OF assms i]
  have o: "ex_stdout ?st = stdout_of pre" "ex_stderr ?st = stderr_of pre"
    "killed ?st \<longleftrightarrow> list_ex timeout_event pre" "resolved ?st = None"
    using p by (simp_all add: exec_init_def)
  show "resolved ?st = None" by (rule o(4))
  have "resolved (handle ?st (Close code)) =
           Some (if list_ex timeout_event pre
                 then \<lparr> stdout = stdout_of pre,
                        stderr = stderr_of pre @ ''\<newline>[Script execution timed out]'',
                        exitCode = None \<rparr>
                 else \<lparr> stdout = stdout_of pre, stderr = stderr_of pre, exitCode = code \<rparr>)"
    using o by (simp add: resolve_def Let_def)
  then show "resolved (foldl handle exec_init (pre @ Close code # rest)) =
           Some (if list_ex timeout_event pre
                 then \<lparr> stdout = stdout_of pre,
                        stderr = stderr_of pre @ ''\<newline>[Script execution timed out]'',
                        exitCode = None \<rparr>
                 else \<lparr> stdout = stdout_of pre, stderr = stderr_of pre, exitCode = code \<rparr>)"
    by (simp add: resolved_kept_fold)
  have "resolved (handle ?st (SpawnError msg)) =
           Some \<lparr> stdout = stdout_of pre,
                  stderr = stderr_of pre @ ''\<newline>[Script execution error: '' @ msg @ '']'',
                  exitCode = None \<rparr>"
    using o by (simp add: resolve_def)
  then show "resolved (foldl handle exec_init (pre @ SpawnError msg # rest)) =
           Some \<lparr> stdout = stdout_of pre,
                  stderr = stderr_of pre @ ''\<newline>[Script execution error: '' @ msg @ '']'',
                  exitCode = None \<rparr>"
    by (simp add: resolved_kept_fold)
qed

lemma grace_timer_idle:
  "proc_killed st \<Longrightarrow> handle st (GraceFired alive) = st"
  by simp

lemma sigterm_sets_killed:
  "\<not> timer_cleared st \<Longrightarrow> \<not> killed st \<Longrightarrow>
   proc_killed (handle st (TimeoutFired True)) \<and> sent (handle st (TimeoutFired True)) = sent st @ [SIGTERM]"
  by (simp add: proc_kill_def)

text \<open>
  C5 fails for a script that outlives \<open>SIGTERM\<close>. The timers fire while the process
  is alive: the runtime's own timer and the timeout handler each send \<open>SIGTERM\<close>, which
  sets the \<open>killed\<close> flag of the process, so the grace timer finds the flag set and
  sends no \<open>SIGKILL\<close>. No close event follows, and the promise stays pending: no
  result, neither an exit code nor a timeout marker.
\<close>

theorem executeScript_hung_script:
  "executeScript
     (\<lambda>call. [StderrData ''tick'', SpawnTimeoutFired True, TimeoutFired True, GraceFired True])
     ''/r/foo/scripts/hang.sh'' [] ''/r/foo'' 30000
   = (None, \<lparr> command = ''bash'', spawn_args = [''/r/foo/scripts/hang.sh''], cwd = ''/r/foo'',
              spawn_timeout = 30000 \<rparr>)
   \<and> sent (foldl handle exec_init
             [StderrData ''tick'', SpawnTimeoutFired True, TimeoutFired True, GraceFired True])
       = [SIGTERM, SIGTERM]"
proof -
  have c: "getScriptCommand ''/r/foo/scripts/hang.sh'' = (''bash'', [''/r/foo/scripts/hang.sh''])"
    by code_simp
  show ?thesis
    by (simp add: executeScript_def c exec_init_def proc_kill_def Let_def)
qed
end
